theory Spec2Isabelle
  imports Main
begin

section \<open>Python values\<close>

text \<open>
  The registry's \<open>self.state\<close> holds whatever \<open>json.load\<close> returned, so it is a value of
  the JSON data model and not only a list of records. A Python \<open>dict\<close> is an association
  list in insertion order (the keys of a dict are distinct, so a lookup finds the only
  binding of a key). A float is kept as an integer mantissa and a decimal exponent
  (every finite float is such a number); the program never computes with one.
\<close>

datatype json =
    JNull
  | JBool bool
  | JInt int
  | JFloat int int
  | JStr string
  | JArr "json list"
  | JObj "(string \<times> json) list"

text \<open>The exception classes the program can meet.\<close>

datatype exn =
  OSError | JSONDecodeError | AttributeError | TypeError | IndexError | KeyError | OverflowError

text \<open>\<open>len(v)\<close>: lists, dicts and strings have a length, every other value raises.\<close>

fun py_len :: "json \<Rightarrow> exn + int" where
  "py_len (JArr xs) = Inr (int (length xs))"
| "py_len (JObj kvs) = Inr (int (length kvs))"
| "py_len (JStr s) = Inr (int (length s))"
| "py_len _ = Inl TypeError"

text \<open>
  \<open>v[i]\<close>: on a list or a string a negative index counts from the end and an index
  outside \<open>[-len, len)\<close> raises IndexError; a dict is looked up by key, and an integer is
  never a key of a dict read from JSON; the other values are not subscriptable.
  \<open>index_of n i\<close> is the position an index \<open>i\<close> denotes in a sequence of length \<open>n\<close>.
\<close>

definition index_of :: "nat \<Rightarrow> int \<Rightarrow> nat option" where
  "index_of n i =
     (if 0 \<le> i \<and> i < int n then Some (nat i)
      else if i < 0 \<and> - int n \<le> i then Some (nat (int n + i))
      else None)"

fun py_getitem :: "json \<Rightarrow> int \<Rightarrow> exn + json" where
  "py_getitem (JArr xs) i =
     (case index_of (length xs) i of None \<Rightarrow> Inl IndexError | Some k \<Rightarrow> Inr (xs ! k))"
| "py_getitem (JStr s) i =
     (case index_of (length s) i of None \<Rightarrow> Inl IndexError | Some k \<Rightarrow> Inr (JStr [s ! k]))"
| "py_getitem (JObj kvs) i = Inl KeyError"
| "py_getitem _ i = Inl TypeError"

text \<open>
  \<open>entry.get(key, default)\<close>: only a dict has the method. Python's \<open>None\<close> is \<open>JNull\<close>,
  so \<open>entry.get(key)\<close> is \<open>py_get entry key JNull\<close>.
\<close>

fun py_get :: "json \<Rightarrow> string \<Rightarrow> json \<Rightarrow> exn + json" where
  "py_get (JObj kvs) k d = Inr (case map_of kvs k of None \<Rightarrow> d | Some v \<Rightarrow> v)"
| "py_get _ k d = Inl AttributeError"

text \<open>
  \<open>for entry in v\<close>: a list yields its elements, a dict its keys, a string its
  characters; the other values are not iterable.
\<close>

fun py_iter :: "json \<Rightarrow> exn + json list" where
  "py_iter (JArr xs) = Inr xs"
| "py_iter (JObj kvs) = Inr (map (\<lambda>kv. JStr (fst kv)) kvs)"
| "py_iter (JStr s) = Inr (map (\<lambda>c. JStr [c]) s)"
| "py_iter _ = Inl TypeError"

section \<open>The environment: files, dialogs and the json library\<close>

text \<open>
  What the operating system answers is part of the world: which files exist and what they
  hold, and for each path whether opening for reading, writing, \<open>chmod\<close> and \<open>remove\<close>
  go through. A write can fail at \<open>open\<close> (the file is untouched) or after it (the file
  was truncated and holds some prefix of the text). A path names a file by its text.
  Everything the program shows or prints, and every attempt to open a file for writing,
  is appended to the trace.
\<close>

datatype write_outcome = Written | OpenFailed | WriteFailed nat

datatype event =
    OpenWrite string
  | Print string exn
  | ShowError string string "exn option"
  | ShowWarning string string
  | ShowInfo string string
  | AskYesNo string json

record world =
  files :: "string \<Rightarrow> string option"
  perms :: "string \<Rightarrow> nat option"
  read_denied :: "string \<Rightarrow> bool"
  write_result :: "string \<Rightarrow> write_outcome"
  chmod_denied :: "string \<Rightarrow> bool"
  remove_denied :: "string \<Rightarrow> bool"
  fd_open :: "int \<Rightarrow> bool"
  trace :: "event list"

definition emit :: "event \<Rightarrow> world \<Rightarrow> world" where
  "emit e w = w\<lparr>trace := trace w @ [e]\<rparr>"

text \<open>\<open>with open(p, 'r') as f: f.read()\<close>\<close>

definition read_text :: "world \<Rightarrow> string \<Rightarrow> exn + string" where
  "read_text w p =
     (case files w p of
        None \<Rightarrow> Inl OSError
      | Some s \<Rightarrow> if read_denied w p then Inl OSError else Inr s)"

text \<open>\<open>with open(p, 'w') as f: f.write(s)\<close>\<close>

definition write_text :: "string \<Rightarrow> string \<Rightarrow> world \<Rightarrow> exn option \<times> world" where
  "write_text p s w =
     (let w1 = emit (OpenWrite p) w in
      case write_result w p of
        Written \<Rightarrow> (None, w1\<lparr>files := (files w)(p \<mapsto> s)\<rparr>)
      | OpenFailed \<Rightarrow> (Some OSError, w1)
      | WriteFailed k \<Rightarrow> (Some OSError, w1\<lparr>files := (files w)(p \<mapsto> take k s)\<rparr>))"

text \<open>\<open>os.chmod(p, m)\<close>\<close>

definition os_chmod :: "string \<Rightarrow> nat \<Rightarrow> world \<Rightarrow> exn option \<times> world" where
  "os_chmod p m w =
     (if chmod_denied w p \<or> files w p = None then (Some OSError, w)
      else (None, w\<lparr>perms := (perms w)(p \<mapsto> m)\<rparr>))"

text \<open>\<open>os.remove(p)\<close>\<close>

definition os_remove :: "string \<Rightarrow> world \<Rightarrow> exn option \<times> world" where
  "os_remove p w =
     (if remove_denied w p \<or> files w p = None then (Some OSError, w)
      else (None, w\<lparr>files := (files w)(p := None), perms := (perms w)(p := None)\<rparr>))"

text \<open>
  \<open>os.path.exists(v)\<close>: a string is a path; an integer (a bool is one) is a file
  descriptor, and one that does not fit a C \<open>int\<close> raises OverflowError; anything else
  raises TypeError.
\<close>

fun os_path_exists :: "world \<Rightarrow> json \<Rightarrow> exn + bool" where
  "os_path_exists w (JStr p) = Inr (files w p \<noteq> None)"
| "os_path_exists w (JInt n) =
     (if - (2 ^ 31) \<le> n \<and> n < 2 ^ 31 then Inr (fd_open w n) else Inl OverflowError)"
| "os_path_exists w (JBool b) = Inr (fd_open w (if b then 1 else 0))"
| "os_path_exists w _ = Inl TypeError"

text \<open>
  What the module imports and computes when it is loaded: \<open>json.dumps(v, indent=4)\<close>
  (the text \<open>json.dump\<close> writes), \<open>json.loads\<close> (what \<open>json.load\<close> makes of a file's
  text, or the exception it raises), and \<open>DESKTOP_ENTRY_DIR\<close>, the expansion of
  \<open>~/.local/share/applications\<close> for the user who runs the program. Whether that
  directory could be created is part of whether a write into it succeeds.
\<close>

record env =
  dumps :: "json \<Rightarrow> string"
  loads :: "string \<Rightarrow> exn + json"
  DESKTOP_ENTRY_DIR :: string

definition STATE_FILE :: string where
  "STATE_FILE = ''state.json''"

section \<open>DesktopEntryManager\<close>

record DesktopEntryManager =
  state :: json

text \<open>The body of the \<open>try\<close> in \<open>load_state\<close>: open the file and parse it.\<close>

definition load_body :: "env \<Rightarrow> world \<Rightarrow> exn + json" where
  "load_body lib w =
     (case read_text w STATE_FILE of
        Inl e \<Rightarrow> Inl e
      | Inr s \<Rightarrow> loads lib s)"

definition load_state :: "env \<Rightarrow> world \<Rightarrow> DesktopEntryManager \<Rightarrow> world \<times> DesktopEntryManager" where
  "load_state lib w m =
     (if files w STATE_FILE \<noteq> None then
        (case load_body lib w of
           Inr v \<Rightarrow> (w, m\<lparr>state := v\<rparr>)
         | Inl e \<Rightarrow> (emit (Print ''Error loading state: '' e) w, m\<lparr>state := JArr []\<rparr>))
      else (w, m\<lparr>state := JArr []\<rparr>))"

text \<open>\<open>__init__\<close>: the empty list, then \<open>load_state\<close>.\<close>

definition DesktopEntryManager_init :: "env \<Rightarrow> world \<Rightarrow> world \<times> DesktopEntryManager" where
  "DesktopEntryManager_init lib w = load_state lib w \<lparr>state = JArr []\<rparr>"

definition save_state :: "env \<Rightarrow> world \<Rightarrow> DesktopEntryManager \<Rightarrow> world" where
  "save_state lib w m =
     (case write_text STATE_FILE (dumps lib (state m)) w of
        (None, w') \<Rightarrow> w'
      | (Some e, w') \<Rightarrow> emit (Print ''Error saving state: '' e) w')"

text \<open>\<open>self.state.append(entry)\<close> raises AttributeError unless the state is a list.\<close>

definition add_entry ::
  "env \<Rightarrow> json \<Rightarrow> world \<Rightarrow> DesktopEntryManager \<Rightarrow> exn + world \<times> DesktopEntryManager" where
  "add_entry lib entry w m =
     (case state m of
        JArr xs \<Rightarrow> (let m' = m\<lparr>state := JArr (xs @ [entry])\<rparr> in Inr (save_state lib w m', m'))
      | _ \<Rightarrow> Inl AttributeError)"

text \<open>
  \<open>0 <= index < len(self.state)\<close> evaluates \<open>len\<close> only when \<open>0 <= index\<close> holds.
  \<open>self.state.pop(index)\<close> on a dict looks the integer up as a key and raises KeyError;
  a string has no \<open>pop\<close>. The result is the removed entry, or \<open>None\<close>.
\<close>

definition remove_entry ::
  "env \<Rightarrow> int \<Rightarrow> world \<Rightarrow> DesktopEntryManager \<Rightarrow> exn + json option \<times> world \<times> DesktopEntryManager" where
  "remove_entry lib index w m =
     (if 0 \<le> index then
        (case py_len (state m) of
           Inl e \<Rightarrow> Inl e
         | Inr n \<Rightarrow>
             if index < n then
               (case state m of
                  JArr xs \<Rightarrow>
                    (let entry = xs ! nat index;
                         m' = m\<lparr>state := JArr (take (nat index) xs @ drop (Suc (nat index)) xs)\<rparr>
                     in Inr (Some entry, save_state lib w m', m'))
                | JObj kvs \<Rightarrow> Inl KeyError
                | _ \<Rightarrow> Inl AttributeError)
             else Inr (None, w, m))
      else Inr (None, w, m))"

text \<open>The number of times the backing file was opened for writing.\<close>

definition saves :: "world \<Rightarrow> nat" where
  "saves w = length (filter (\<lambda>e. e = OpenWrite STATE_FILE) (trace w))"

section \<open>Application\<close>

text \<open>
  The window: the registry and the rows of the list widget, one pair (application name,
  desktop file) per row. The dialogs are the user's side of the program; what the user
  answers is an argument of the operation that asks.
\<close>

record Application =
  manager :: DesktopEntryManager
  tree :: "(json \<times> json) list"

fun insert_rows :: "json list \<Rightarrow> Application \<Rightarrow> exn option \<times> Application" where
  "insert_rows [] a = (None, a)"
| "insert_rows (entry # es) a =
     (case py_get entry ''app_name'' (JStr ''Unnamed'') of
        Inl e \<Rightarrow> (Some e, a)
      | Inr n \<Rightarrow>
          (case py_get entry ''desktop_file'' (JStr []) of
             Inl e \<Rightarrow> (Some e, a)
           | Inr d \<Rightarrow> insert_rows es (a\<lparr>tree := tree a @ [(n, d)]\<rparr>)))"

text \<open>\<open>refresh_list\<close> empties the widget, then inserts a row per entry of the state.\<close>

definition refresh_list :: "Application \<Rightarrow> exn option \<times> Application" where
  "refresh_list a =
     (let a0 = a\<lparr>tree := []\<rparr> in
      case py_iter (state (manager a)) of
        Inl e \<Rightarrow> (Some e, a0)
      | Inr es \<Rightarrow> insert_rows es a0)"

text \<open>\<open>Application.__init__\<close>: build the registry, then fill the list.\<close>

definition Application_init :: "env \<Rightarrow> world \<Rightarrow> exn option \<times> Application \<times> world" where
  "Application_init lib w =
     (case DesktopEntryManager_init lib w of
        (w1, m) \<Rightarrow>
          (case refresh_list \<lparr>manager = m, tree = []\<rparr> of (r, a) \<Rightarrow> (r, a, w1)))"

subsection \<open>Creating a desktop entry\<close>

text \<open>
  The answers of the dialogs of \<open>create_desktop_entry\<close>, in the order they are asked,
  and the clock: the file dialogs return the empty string when cancelled,
  \<open>askstring\<close> returns \<open>None\<close> when cancelled, \<open>timestamp\<close> is \<open>int(time.time())\<close>.
  The name dialog is pre-filled from the bundle's file name; only the answer matters.
\<close>

record create_input =
  appimage_path :: string
  app_name :: "string option"
  wm_class :: "string option"
  timestamp :: int
  icon_path :: string

text \<open>\<open>str(n)\<close> for an integer: decimal digits, a minus sign first when negative.\<close>

definition digit :: "nat \<Rightarrow> char" where
  "digit d = ''0123456789'' ! d"

fun str_nat :: "nat \<Rightarrow> string" where
  "str_nat n = (if n < 10 then [digit n] else str_nat (n div 10) @ [digit (n mod 10)])"

declare str_nat.simps [simp del]

definition str_int :: "int \<Rightarrow> string" where
  "str_int i = (if i < 0 then CHR ''-'' # str_nat (nat (- i)) else str_nat (nat i))"

text \<open>\<open>s.replace(' ', '_')\<close>\<close>

definition replace_spaces :: "string \<Rightarrow> string" where
  "replace_spaces s = map (\<lambda>c. if c = CHR '' '' then CHR ''_'' else c) s"

text \<open>\<open>f"{app_name.replace(' ', '_')}_{timestamp}.desktop"\<close>\<close>

definition filename :: "string \<Rightarrow> int \<Rightarrow> string" where
  "filename name t = replace_spaces name @ ''_'' @ str_int t @ ''.desktop''"

text \<open>\<open>os.path.join(a, b)\<close> on two components.\<close>

definition os_path_join :: "string \<Rightarrow> string \<Rightarrow> string" where
  "os_path_join a b =
     (if b \<noteq> [] \<and> hd b = CHR ''/'' then b
      else if a = [] \<or> last a = CHR ''/'' then a @ b
      else a @ ''/'' @ b)"

definition desktop_file_path :: "env \<Rightarrow> string \<Rightarrow> int \<Rightarrow> string" where
  "desktop_file_path lib name t = os_path_join (DESKTOP_ENTRY_DIR lib) (filename name t)"

text \<open>The f-string of the descriptor; \<open>CHR 0x0A\<close> is the newline, \<open>CHR 0x22\<close> the double quote.\<close>

definition desktop_content :: "string \<Rightarrow> string \<Rightarrow> string \<Rightarrow> string \<Rightarrow> string" where
  "desktop_content name appimage icon wm =
     ''[Desktop Entry]'' @ [CHR 0x0A] @
     ''Version=1.0'' @ [CHR 0x0A] @
     ''Type=Application'' @ [CHR 0x0A] @
     ''Name='' @ name @ [CHR 0x0A] @
     ''Exec='' @ [CHR 0x22] @ appimage @ [CHR 0x22] @ [CHR 0x0A] @
     ''Icon='' @ icon @ [CHR 0x0A] @
     ''StartupWMClass='' @ wm @ [CHR 0x0A] @
     ''Terminal=false'' @ [CHR 0x0A] @
     ''Categories=Utility;''"

text \<open>The body of the \<open>try\<close>: write the file, then \<open>os.chmod(path, 0o755)\<close>.\<close>

definition write_descriptor :: "string \<Rightarrow> string \<Rightarrow> world \<Rightarrow> exn option \<times> world" where
  "write_descriptor p content w =
     (case write_text p content w of
        (Some e, w1) \<Rightarrow> (Some e, w1)
      | (None, w1) \<Rightarrow> os_chmod p 493 w1)"

text \<open>
  The result is the exception that leaves the method (\<open>None\<close> when it returns), the
  window and the world afterwards.
\<close>

definition create_desktop_entry ::
  "env \<Rightarrow> create_input \<Rightarrow> Application \<Rightarrow> world \<Rightarrow> exn option \<times> Application \<times> world" where
  "create_desktop_entry lib inp a w =
     (if appimage_path inp = [] then (None, a, w)
      else
        (case app_name inp of
           None \<Rightarrow> (None, a, emit (ShowError ''Error'' ''Application name cannot be empty.'' None) w)
         | Some name \<Rightarrow>
             if name = [] then
               (None, a, emit (ShowError ''Error'' ''Application name cannot be empty.'' None) w)
             else
               (let wm = (case wm_class inp of None \<Rightarrow> name | Some c \<Rightarrow> if c = [] then name else c);
                    path = desktop_file_path lib name (timestamp inp);
                    content = desktop_content name (appimage_path inp) (icon_path inp) wm
                in case write_descriptor path content w of
                     (Some e, w1) \<Rightarrow>
                       (None, a, emit (ShowError ''Error'' ''Failed to create desktop entry: '' (Some e)) w1)
                   | (None, w1) \<Rightarrow>
                       (let entry = JObj [(''app_name'', JStr name),
                                          (''appimage_path'', JStr (appimage_path inp)),
                                          (''desktop_file'', JStr path)]
                        in case add_entry lib entry w1 (manager a) of
                             Inl e \<Rightarrow> (Some e, a, w1)
                           | Inr (w2, m2) \<Rightarrow>
                               (case refresh_list (a\<lparr>manager := m2\<rparr>) of
                                  (Some e, a3) \<Rightarrow> (Some e, a3, w2)
                                | (None, a3) \<Rightarrow>
                                    (None, a3,
                                     emit (ShowInfo ''Success'' (''Desktop entry created: '' @ path)) w2))))))"

subsection \<open>Deleting a desktop entry\<close>

text \<open>\<open>os.remove(v)\<close> takes a path, not a file descriptor.\<close>

fun os_remove_value :: "json \<Rightarrow> world \<Rightarrow> exn option \<times> world" where
  "os_remove_value (JStr p) w = os_remove p w"
| "os_remove_value _ w = (Some TypeError, w)"

text \<open>The body of the \<open>try\<close>: remove the descriptor file if it exists.\<close>

definition remove_descriptor :: "json \<Rightarrow> world \<Rightarrow> exn option \<times> world" where
  "remove_descriptor desktop_file w =
     (case os_path_exists w desktop_file of
        Inl e \<Rightarrow> (Some e, w)
      | Inr found \<Rightarrow> if found then os_remove_value desktop_file w else (None, w))"

text \<open>
  \<open>selected\<close> is \<open>self.tree.selection()\<close>, each selected row given by the position
  \<open>self.tree.index\<close> reports for it; \<open>confirm\<close> is the answer to the confirmation
  dialog, whose text shows the entry's name.
\<close>

definition delete_entry ::
  "env \<Rightarrow> int list \<Rightarrow> bool \<Rightarrow> Application \<Rightarrow> world \<Rightarrow> exn option \<times> Application \<times> world" where
  "delete_entry lib selected confirm a w =
     (case selected of
        [] \<Rightarrow> (None, a, emit (ShowWarning ''Warning'' ''Please select an entry to delete.'') w)
      | index # _ \<Rightarrow>
          (case py_getitem (state (manager a)) index of
             Inl e \<Rightarrow> (Some e, a, w)
           | Inr entry \<Rightarrow>
               (case py_get entry ''desktop_file'' JNull of
                  Inl e \<Rightarrow> (Some e, a, w)
                | Inr desktop_file \<Rightarrow>
                    (case py_get entry ''app_name'' (JStr ''Unnamed'') of
                       Inl e \<Rightarrow> (Some e, a, w)
                     | Inr name \<Rightarrow>
                         (let w1 = emit (AskYesNo ''Confirm Delete'' name) w in
                          if confirm then
                            (case remove_descriptor desktop_file w1 of
                               (Some e, w2) \<Rightarrow>
                                 (None, a,
                                  emit (ShowError ''Error'' ''Failed to delete desktop entry file: '' (Some e)) w2)
                             | (None, w2) \<Rightarrow>
                                 (case remove_entry lib index w2 (manager a) of
                                    Inl e \<Rightarrow> (Some e, a, w2)
                                  | Inr (r, w3, m3) \<Rightarrow>
                                      (case refresh_list (a\<lparr>manager := m3\<rparr>) of
                                         (Some e, a4) \<Rightarrow> (Some e, a4, w3)
                                       | (None, a4) \<Rightarrow>
                                           (None, a4,
                                            emit (ShowInfo ''Deleted'' ''Desktop entry deleted successfully.'') w3))))
                          else (None, a, w1))))))"

text \<open>An entry that is a dict, as every record the program appends is.\<close>

fun is_dict :: "json \<Rightarrow> bool" where
  "is_dict (JObj kvs) = True"
| "is_dict _ = False"

section \<open>Sequences of registry operations\<close>

datatype op = Append json | RemoveAt int

text \<open>What each call returned: \<open>add_entry\<close> returns nothing, \<open>remove_entry\<close> the entry or \<open>None\<close>.\<close>

datatype op_result = Appended | Removed json | NotFound

fun run ::
  "env \<Rightarrow> op list \<Rightarrow> world \<Rightarrow> DesktopEntryManager \<Rightarrow> exn + op_result list \<times> world \<times> DesktopEntryManager" where
  "run lib [] w m = Inr ([], w, m)"
| "run lib (Append entry # ops) w m =
     (case add_entry lib entry w m of
        Inl e \<Rightarrow> Inl e
      | Inr (w1, m1) \<Rightarrow>
          (case run lib ops w1 m1 of
             Inl e \<Rightarrow> Inl e
           | Inr (rs, w2, m2) \<Rightarrow> Inr (Appended # rs, w2, m2)))"
| "run lib (RemoveAt i # ops) w m =
     (case remove_entry lib i w m of
        Inl e \<Rightarrow> Inl e
      | Inr (r, w1, m1) \<Rightarrow>
          (case run lib ops w1 m1 of
             Inl e \<Rightarrow> Inl e
           | Inr (rs, w2, m2) \<Rightarrow>
               Inr ((case r of None \<Rightarrow> NotFound | Some entry \<Rightarrow> Removed entry) # rs, w2, m2)))"

definition appends :: "op list \<Rightarrow> nat" where
  "appends ops = length (filter (\<lambda>x. case x of Append _ \<Rightarrow> True | RemoveAt _ \<Rightarrow> False) ops)"

definition removals :: "op_result list \<Rightarrow> nat" where
  "removals rs = length (filter (\<lambda>r. case r of Removed _ \<Rightarrow> True | _ \<Rightarrow> False) rs)"

section \<open>A JSON library and a machine for concrete runs\<close>

text \<open>
  The theorems below hold for every \<open>env\<close>. To run the program on concrete inputs an
  \<open>env\<close> is needed: a small JSON printer that lays a document out as
  \<open>json.dumps(v, indent=4)\<close> does (one item per line, four spaces per level), and a
  parser for JSON text with strings, integers, the literals, arrays and objects. It
  stands in for Python's json and is not a copy of it. The printer escapes the double
  quote, the backslash and the newline only, and prints a float as mantissa, \<open>e\<close> and
  exponent. The parser reads back every document the printer writes (\<open>json_round_trip\<close>
  below); on other text it knows no fraction part and no hexadecimal escape, accepts
  leading zeros and keeps every binding of a repeated key. The parser's fuel bounds the depth of
  its recursion by the length of the text.
\<close>

definition indent :: "nat \<Rightarrow> string" where
  "indent k = replicate (4 * k) CHR '' ''"

fun escape :: "string \<Rightarrow> string" where
  "escape [] = []"
| "escape (c # cs) =
     (if c = CHR 0x22 then CHR 0x5C # CHR 0x22 # escape cs
      else if c = CHR 0x5C then CHR 0x5C # CHR 0x5C # escape cs
      else if c = CHR 0x0A then CHR 0x5C # CHR ''n'' # escape cs
      else c # escape cs)"

definition quote :: "string \<Rightarrow> string" where
  "quote s = [CHR 0x22] @ escape s @ [CHR 0x22]"

fun json_dumps_at :: "nat \<Rightarrow> json \<Rightarrow> string"
  and dumps_items :: "nat \<Rightarrow> json list \<Rightarrow> string"
  and dumps_members :: "nat \<Rightarrow> (string \<times> json) list \<Rightarrow> string" where
  "json_dumps_at k JNull = ''null''"
| "json_dumps_at k (JBool b) = (if b then ''true'' else ''false'')"
| "json_dumps_at k (JInt i) = str_int i"
| "json_dumps_at k (JFloat m e) = str_int m @ ''e'' @ str_int e"
| "json_dumps_at k (JStr s) = quote s"
| "json_dumps_at k (JArr xs) =
     (if xs = [] then ''[]''
      else ''['' @ [CHR 0x0A] @ dumps_items (Suc k) xs @ [CHR 0x0A] @ indent k @ '']'')"
| "json_dumps_at k (JObj kvs) =
     (if kvs = [] then ''{}''
      else ''{'' @ [CHR 0x0A] @ dumps_members (Suc k) kvs @ [CHR 0x0A] @ indent k @ ''}'')"
| "dumps_items k [] = []"
| "dumps_items k (x # xs) =
     indent k @ json_dumps_at k x @ (if xs = [] then [] else '','' @ [CHR 0x0A] @ dumps_items k xs)"
| "dumps_members k [] = []"
| "dumps_members k (kv # kvs) =
     indent k @ quote (fst kv) @ '': '' @ json_dumps_at k (snd kv)
       @ (if kvs = [] then [] else '','' @ [CHR 0x0A] @ dumps_members k kvs)"

definition json_dumps :: "json \<Rightarrow> string" where
  "json_dumps v = json_dumps_at 0 v"

definition is_ws :: "char \<Rightarrow> bool" where
  "is_ws c = (c = CHR '' '' \<or> c = CHR 0x0A \<or> c = CHR 0x09 \<or> c = CHR 0x0D)"

definition skip_ws :: "string \<Rightarrow> string" where
  "skip_ws s = dropWhile is_ws s"

definition is_digit :: "char \<Rightarrow> bool" where
  "is_digit c = (c \<in> set ''0123456789'')"

definition digit_val :: "char \<Rightarrow> nat" where
  "digit_val c = of_char c - 48"

definition nat_of_digits :: "string \<Rightarrow> nat" where
  "nat_of_digits ds = foldl (\<lambda>n c. 10 * n + digit_val c) 0 ds"

text \<open>An optional minus sign and a non-empty run of digits.\<close>

definition parse_int :: "string \<Rightarrow> (int \<times> string) option" where
  "parse_int s =
     (let neg = (s \<noteq> [] \<and> hd s = CHR ''-'');
          t = (if neg then tl s else s);
          ds = takeWhile is_digit t
      in if ds = [] then None
         else Some ((if neg then - int (nat_of_digits ds) else int (nat_of_digits ds)),
                    dropWhile is_digit t))"

definition parse_number :: "string \<Rightarrow> (json \<times> string) option" where
  "parse_number s =
     (case parse_int s of
        None \<Rightarrow> None
      | Some (m, r) \<Rightarrow>
          (case r of
             c # r' \<Rightarrow>
               if c = CHR ''e'' then
                 (case parse_int r' of None \<Rightarrow> None | Some (e, r'') \<Rightarrow> Some (JFloat m e, r''))
               else Some (JInt m, r)
           | [] \<Rightarrow> Some (JInt m, r)))"

text \<open>The text of a string after its opening quote, up to the closing one.\<close>

fun parse_chars :: "string \<Rightarrow> (string \<times> string) option" where
  "parse_chars [] = None"
| "parse_chars [c] = (if c = CHR 0x22 then Some ([], []) else None)"
| "parse_chars (c # d # cs) =
     (if c = CHR 0x22 then Some ([], d # cs)
      else if c = CHR 0x5C then
        (if d = CHR ''n'' then map_option (\<lambda>(t, r). (CHR 0x0A # t, r)) (parse_chars cs)
         else if d = CHR 0x22 \<or> d = CHR 0x5C then map_option (\<lambda>(t, r). (d # t, r)) (parse_chars cs)
         else None)
      else map_option (\<lambda>(t, r). (c # t, r)) (parse_chars (d # cs)))"

definition strip_prefix :: "string \<Rightarrow> string \<Rightarrow> string option" where
  "strip_prefix p s = (if take (length p) s = p then Some (drop (length p) s) else None)"

fun parse_value :: "nat \<Rightarrow> string \<Rightarrow> (json \<times> string) option"
  and parse_items :: "nat \<Rightarrow> string \<Rightarrow> (json list \<times> string) option"
  and parse_members :: "nat \<Rightarrow> string \<Rightarrow> ((string \<times> json) list \<times> string) option" where
  "parse_value 0 s = None"
| "parse_value (Suc n) s =
     (case skip_ws s of
        [] \<Rightarrow> None
      | c # cs \<Rightarrow>
          if c = CHR ''['' then
            (case skip_ws cs of
               [] \<Rightarrow> None
             | d # ds \<Rightarrow>
                 if d = CHR '']'' then Some (JArr [], ds)
                 else map_option (\<lambda>(xs, r). (JArr xs, r)) (parse_items n cs))
          else if c = CHR ''{'' then
            (case skip_ws cs of
               [] \<Rightarrow> None
             | d # ds \<Rightarrow>
                 if d = CHR ''}'' then Some (JObj [], ds)
                 else map_option (\<lambda>(kvs, r). (JObj kvs, r)) (parse_members n cs))
          else if c = CHR 0x22 then map_option (\<lambda>(t, r). (JStr t, r)) (parse_chars cs)
          else if c = CHR ''n'' then map_option (\<lambda>r. (JNull, r)) (strip_prefix ''ull'' cs)
          else if c = CHR ''t'' then map_option (\<lambda>r. (JBool True, r)) (strip_prefix ''rue'' cs)
          else if c = CHR ''f'' then map_option (\<lambda>r. (JBool False, r)) (strip_prefix ''alse'' cs)
          else parse_number (c # cs))"
| "parse_items 0 s = None"
| "parse_items (Suc n) s =
     (case parse_value n s of
        None \<Rightarrow> None
      | Some (v, r) \<Rightarrow>
          (case skip_ws r of
             [] \<Rightarrow> None
           | c # cs \<Rightarrow>
               if c = CHR '','' then map_option (\<lambda>(xs, r'). (v # xs, r')) (parse_items n cs)
               else if c = CHR '']'' then Some ([v], cs)
               else None))"
| "parse_members 0 s = None"
| "parse_members (Suc n) s =
     (case skip_ws s of
        [] \<Rightarrow> None
      | q # s1 \<Rightarrow>
          if q \<noteq> CHR 0x22 then None
          else
            (case parse_chars s1 of
               None \<Rightarrow> None
             | Some (k, s2) \<Rightarrow>
                 (case skip_ws s2 of
                    [] \<Rightarrow> None
                  | c # s3 \<Rightarrow>
                      if c \<noteq> CHR '':'' then None
                      else
                        (case parse_value n s3 of
                           None \<Rightarrow> None
                         | Some (v, r) \<Rightarrow>
                             (case skip_ws r of
                                [] \<Rightarrow> None
                              | d # ds \<Rightarrow>
                                  if d = CHR '','' then
                                    map_option (\<lambda>(kvs, r'). ((k, v) # kvs, r')) (parse_members n ds)
                                  else if d = CHR ''}'' then Some ([(k, v)], ds)
                                  else None)))))"

definition json_loads :: "string \<Rightarrow> exn + json" where
  "json_loads s =
     (case parse_value (Suc (2 * length s)) s of
        None \<Rightarrow> Inl JSONDecodeError
      | Some (v, r) \<Rightarrow> if skip_ws r = [] then Inr v else Inl JSONDecodeError)"

text \<open>
  What the printer's documents need from the parser: the fuel a value takes, the
  characters that may follow a value in a document, and the characters a value starts
  with.
\<close>

fun need :: "json \<Rightarrow> nat"
  and need_items :: "json list \<Rightarrow> nat"
  and need_members :: "(string \<times> json) list \<Rightarrow> nat" where
  "need (JArr xs) = Suc (need_items xs)"
| "need (JObj kvs) = Suc (need_members kvs)"
| "need JNull = 1"
| "need (JBool b) = 1"
| "need (JInt i) = 1"
| "need (JFloat m e) = 1"
| "need (JStr s) = 1"
| "need_items [] = 0"
| "need_items (x # xs) = Suc (max (need x) (need_items xs))"
| "need_members [] = 0"
| "need_members (kv # kvs) = Suc (max (need (snd kv)) (need_members kvs))"

definition sep :: "string \<Rightarrow> bool" where
  "sep r = (r = [] \<or> hd r = CHR '','' \<or> hd r = CHR 0x0A)"

definition starter :: "char \<Rightarrow> bool" where
  "starter c = (is_digit c \<or> c \<in> set ''-[{ntf'' \<or> c = CHR 0x22)"

definition py :: env where
  "py = \<lparr>dumps = json_dumps, loads = json_loads,
          DESKTOP_ENTRY_DIR = ''/home/user/.local/share/applications''\<rparr>"

text \<open>A machine with no files on which every operation is permitted.\<close>

definition world0 :: world where
  "world0 = \<lparr>files = (\<lambda>p. None), perms = (\<lambda>p. None), read_denied = (\<lambda>p. False),
              write_result = (\<lambda>p. Written), chmod_denied = (\<lambda>p. False),
              remove_denied = (\<lambda>p. False), fd_open = (\<lambda>n. False), trace = []\<rparr>"

text \<open>A record as \<open>create_desktop_entry\<close> builds it, and two of them.\<close>

definition registration :: "string \<Rightarrow> string \<Rightarrow> string \<Rightarrow> json" where
  "registration name bundle path =
     JObj [(''app_name'', JStr name), (''appimage_path'', JStr bundle), (''desktop_file'', JStr path)]"

definition sample_a :: json where
  "sample_a = registration ''Sample'' ''/opt/Sample.AppImage'' ''/apps/Sample_100.desktop''"

definition sample_b :: json where
  "sample_b = registration ''Other'' ''/opt/Other.AppImage'' ''/apps/Other_200.desktop''"

text \<open>The machine with one more file, and with an operation on a path refused.\<close>

definition with_file :: "string \<Rightarrow> string \<Rightarrow> world \<Rightarrow> world" where
  "with_file p s w = w\<lparr>files := (files w)(p \<mapsto> s)\<rparr>"

definition deny_read :: "string \<Rightarrow> world \<Rightarrow> world" where
  "deny_read p w = w\<lparr>read_denied := (read_denied w)(p := True)\<rparr>"

definition deny_remove :: "string \<Rightarrow> world \<Rightarrow> world" where
  "deny_remove p w = w\<lparr>remove_denied := (remove_denied w)(p := True)\<rparr>"

definition deny_chmod :: "string \<Rightarrow> world \<Rightarrow> world" where
  "deny_chmod p w = w\<lparr>chmod_denied := (chmod_denied w)(p := True)\<rparr>"

definition fail_write :: "string \<Rightarrow> write_outcome \<Rightarrow> world \<Rightarrow> world" where
  "fail_write p r w = w\<lparr>write_result := (write_result w)(p := r)\<rparr>"

text \<open>The answers of the specification's example: no class id given, no icon chosen.\<close>

definition foo_input :: create_input where
  "foo_input = \<lparr>appimage_path = ''/path/Foo.AppImage'', app_name = Some ''Foo App'',
                 wm_class = None, timestamp = 1700000000, icon_path = []\<rparr>"

definition empty_app :: Application where
  "empty_app = \<lparr>manager = \<lparr>state = JArr []\<rparr>, tree = []\<rparr>"

text \<open>The answers for a bundle named Sample, and the window listing the two sample records.\<close>

definition sample_input :: create_input where
  "sample_input = \<lparr>appimage_path = ''/opt/Sample.AppImage'', app_name = Some ''Sample'',
                    wm_class = Some ''sample'', timestamp = 1700000000,
                    icon_path = ''/opt/sample.png''\<rparr>"

definition two_app :: Application where
  "two_app = \<lparr>manager = \<lparr>state = JArr [sample_a, sample_b]\<rparr>,
               tree = [(JStr ''Sample'', JStr ''/apps/Sample_100.desktop''),
                       (JStr ''Other'', JStr ''/apps/Other_200.desktop'')]\<rparr>"

section \<open>The descriptor as the specification lists it\<close>

text \<open>
  A group header and one \<open>key=value\<close> line per field, in the order of the
  specification, the lines separated by newlines.
\<close>

definition field :: "string \<Rightarrow> string \<Rightarrow> string" where
  "field k v = k @ ''='' @ v"

fun join_lines :: "string list \<Rightarrow> string" where
  "join_lines [] = []"
| "join_lines [l] = l"
| "join_lines (l # ls) = l @ [CHR 0x0A] @ join_lines ls"

definition descriptor_document :: "string \<Rightarrow> string \<Rightarrow> string \<Rightarrow> string \<Rightarrow> string" where
  "descriptor_document name bundle icon class_id =
     join_lines
       [''[Desktop Entry]'',
        field ''Version'' ''1.0'',
        field ''Type'' ''Application'',
        field ''Name'' name,
        field ''Exec'' ([CHR 0x22] @ bundle @ [CHR 0x22]),
        field ''Icon'' icon,
        field ''StartupWMClass'' class_id,
        field ''Terminal'' ''false'',
        field ''Categories'' ''Utility;'']"

text \<open>The class id as the specification resolves it: the one supplied unless absent or empty.\<close>

definition resolved_class_id :: "string option \<Rightarrow> string \<Rightarrow> string" where
  "resolved_class_id supplied name =
     (if supplied = None \<or> supplied = Some [] then name else the supplied)"

section \<open>Facts about the environment and the registry\<close>

lemma saves_world0: "saves world0 = 0"
  by (simp add: saves_def world0_def)

lemma saves_save_state: "saves (save_state lib w m) = Suc (saves w)"
  by (simp add: save_state_def write_text_def saves_def emit_def Let_def split: write_outcome.splits)

lemma save_state_written:
  assumes "write_result w STATE_FILE = Written"
  shows "files (save_state lib w m) STATE_FILE = Some (dumps lib (state m))"
    and "write_result (save_state lib w m) = write_result w"
    and "read_denied (save_state lib w m) = read_denied w"
  using assms by (simp_all add: save_state_def write_text_def emit_def Let_def)

lemma save_state_files_other:
  "p \<noteq> STATE_FILE \<Longrightarrow> files (save_state lib w m) p = files w p"
  by (simp add: save_state_def write_text_def emit_def Let_def split: write_outcome.splits)

lemma trace_save_state:
  "\<exists>es. trace (save_state lib w m) = trace w @ es \<and> (\<forall>t s e. ShowError t s e \<notin> set es)"
  by (auto simp: save_state_def write_text_def emit_def Let_def split: write_outcome.splits)

lemma load_state_depends:
  assumes "files w' STATE_FILE = files w STATE_FILE"
    and "read_denied w' STATE_FILE = read_denied w STATE_FILE"
  shows "state (snd (load_state lib w' m')) = state (snd (load_state lib w m))"
  using assms
  by (auto simp: load_state_def load_body_def read_text_def split: sum.splits option.splits)

lemma load_state_of_dump:
  assumes "files w STATE_FILE = Some (dumps lib v)" and "\<not> read_denied w STATE_FILE"
    and "loads lib (dumps lib v) = Inr v"
  shows "state (snd (load_state lib w m)) = v"
  using assms by (simp add: load_state_def load_body_def read_text_def)

lemma add_entry_list:
  assumes "state m = JArr xs"
  shows "add_entry lib entry w m =
           Inr (save_state lib w (m\<lparr>state := JArr (xs @ [entry])\<rparr>), m\<lparr>state := JArr (xs @ [entry])\<rparr>)"
  using assms by (simp add: add_entry_def Let_def)

lemma add_entry_files_other:
  "add_entry lib entry w m = Inr (w', m') \<Longrightarrow> p \<noteq> STATE_FILE \<Longrightarrow> files w' p = files w p"
  by (auto simp: add_entry_def Let_def save_state_files_other split: json.splits)

lemma remove_entry_list:
  assumes "state m = JArr xs"
  shows "remove_entry lib i w m =
           (if 0 \<le> i \<and> i < int (length xs)
            then Inr (Some (xs ! nat i),
                      save_state lib w (m\<lparr>state := JArr (take (nat i) xs @ drop (Suc (nat i)) xs)\<rparr>),
                      m\<lparr>state := JArr (take (nat i) xs @ drop (Suc (nat i)) xs)\<rparr>)
            else Inr (None, w, m))"
  using assms by (simp add: remove_entry_def Let_def)

lemma init_in_step:
  assumes "DesktopEntryManager_init lib w = (w1, m)"
  shows "state (snd (load_state lib w1 m)) = state m"
  using assms
  by (auto simp: DesktopEntryManager_init_def load_state_def load_body_def read_text_def emit_def
           split: if_splits sum.splits option.splits)

section \<open>Removal by position (C3)\<close>

text \<open>
  C3. For a registry whose state is the sequence \<open>xs\<close> and any position \<open>i\<close>: when
  \<open>0 \<le> i < length xs\<close>, \<open>remove_entry\<close> returns the record at position \<open>i\<close>, the state is
  \<open>xs\<close> without that position, and \<open>save_state\<close> has run once on the new state (the
  backing file was opened for writing once more); otherwise it returns \<open>None\<close> and
  neither the registry nor the world has changed, so nothing was saved.
\<close>

theorem remove_entry_bounds:
  assumes "state m = JArr xs"
  shows "if 0 \<le> i \<and> i < int (length xs)
         then remove_entry lib i w m =
                Inr (Some (xs ! nat i),
                     save_state lib w (m\<lparr>state := JArr (take (nat i) xs @ drop (Suc (nat i)) xs)\<rparr>),
                     m\<lparr>state := JArr (take (nat i) xs @ drop (Suc (nat i)) xs)\<rparr>)
              \<and> saves (save_state lib w (m\<lparr>state := JArr (take (nat i) xs @ drop (Suc (nat i)) xs)\<rparr>))
                  = Suc (saves w)
         else remove_entry lib i w m = Inr (None, w, m)"
  using assms by (simp add: remove_entry_def saves_save_state Let_def)

text \<open>
  On the registry holding the two sample records: position 1 removes the second record
  and saves; positions 2 and -1 are out of bounds and change nothing.
\<close>

theorem remove_entry_bounds_witness:
  "state \<lparr>state = JArr [sample_a, sample_b]\<rparr> = JArr [sample_a, sample_b]
   \<and> remove_entry py 1 world0 \<lparr>state = JArr [sample_a, sample_b]\<rparr> =
       Inr (Some sample_b, save_state py world0 \<lparr>state = JArr [sample_a]\<rparr>, \<lparr>state = JArr [sample_a]\<rparr>)
   \<and> saves (save_state py world0 \<lparr>state = JArr [sample_a]\<rparr>) = 1
   \<and> remove_entry py 2 world0 \<lparr>state = JArr [sample_a, sample_b]\<rparr> =
       Inr (None, world0, \<lparr>state = JArr [sample_a, sample_b]\<rparr>)
   \<and> remove_entry py (- 1) world0 \<lparr>state = JArr [sample_a, sample_b]\<rparr> =
       Inr (None, world0, \<lparr>state = JArr [sample_a, sample_b]\<rparr>)"
  using remove_entry_bounds[of "\<lparr>state = JArr [sample_a, sample_b]\<rparr>" "[sample_a, sample_b]" 1 py world0]
    remove_entry_bounds[of "\<lparr>state = JArr [sample_a, sample_b]\<rparr>" "[sample_a, sample_b]" 2 py world0]
    remove_entry_bounds[of "\<lparr>state = JArr [sample_a, sample_b]\<rparr>" "[sample_a, sample_b]" "- 1" py world0]
  by (simp add: saves_world0)

section \<open>Loading the backing file (C7, C9)\<close>

text \<open>
  C7. When the backing file is absent, or cannot be read, or holds text the JSON parser
  rejects, \<open>load_state\<close> returns (no exception leaves it: every failure of its \<open>try\<close>
  body is a value handled in \<open>load_state\<close>) with the in-memory state the empty list,
  and the files are as they were.
\<close>

theorem load_state_failure:
  assumes "files w STATE_FILE = None \<or> read_denied w STATE_FILE
           \<or> (\<exists>s e. files w STATE_FILE = Some s \<and> loads lib s = Inl e)"
  shows "state (snd (load_state lib w m)) = JArr [] \<and> files (fst (load_state lib w m)) = files w"
  using assms
  by (auto simp: load_state_def load_body_def read_text_def emit_def split: sum.splits option.splits)

text \<open>
  The three conditions on concrete machines: no file; a file that may not be read; a
  file holding the text \<open>[{\<close>, which the parser rejects.
\<close>

theorem load_state_failure_witness:
  "files world0 STATE_FILE = None
   \<and> state (snd (load_state py world0 \<lparr>state = JInt 7\<rparr>)) = JArr []
   \<and> read_denied (deny_read STATE_FILE (with_file STATE_FILE ''[]'' world0)) STATE_FILE
   \<and> state (snd (load_state py (deny_read STATE_FILE (with_file STATE_FILE ''[]'' world0))
                   \<lparr>state = JInt 7\<rparr>)) = JArr []
   \<and> files (with_file STATE_FILE ''[{'' world0) STATE_FILE = Some ''[{''
   \<and> loads py ''[{'' = Inl JSONDecodeError
   \<and> state (snd (load_state py (with_file STATE_FILE ''[{'' world0) \<lparr>state = JInt 7\<rparr>)) = JArr []"
proof -
  have bad: "loads py ''[{'' = Inl JSONDecodeError"
    by code_simp
  have a: "files world0 STATE_FILE = None"
    by (simp add: world0_def)
  have b: "read_denied (deny_read STATE_FILE (with_file STATE_FILE ''[]'' world0)) STATE_FILE"
    by (simp add: deny_read_def with_file_def)
  have c: "files (with_file STATE_FILE ''[{'' world0) STATE_FILE = Some ''[{''"
    by (simp add: with_file_def)
  have c': "\<exists>s e. files (with_file STATE_FILE ''[{'' world0) STATE_FILE = Some s \<and> loads py s = Inl e"
    using bad c by blast
  show ?thesis
    using load_state_failure[of world0 py "\<lparr>state = JInt 7\<rparr>"]
      load_state_failure[of "deny_read STATE_FILE (with_file STATE_FILE ''[]'' world0)" py "\<lparr>state = JInt 7\<rparr>"]
      load_state_failure[of "with_file STATE_FILE ''[{'' world0" py "\<lparr>state = JInt 7\<rparr>"]
      a b c c' bad
    by simp
qed

text \<open>
  C9. \<open>load_state\<close> does not look at the shape of what it parsed: when the backing file
  can be read and its text parses to a value \<open>v\<close>, whatever \<open>v\<close> is (an object, a
  string, a number as well as a list), \<open>load_state\<close> returns with the in-memory state
  equal to \<open>v\<close>, nothing printed and nothing else changed.
\<close>

theorem load_state_any_value:
  assumes "files w STATE_FILE = Some s" and "\<not> read_denied w STATE_FILE" and "loads lib s = Inr v"
  shows "load_state lib w m = (w, m\<lparr>state := v\<rparr>)"
  using assms by (simp add: load_state_def load_body_def read_text_def)

text \<open>A backing file holding a JSON object: the state becomes that object.\<close>

theorem load_state_any_value_witness:
  "files (with_file STATE_FILE (dumps py (JObj [(''version'', JInt 2)])) world0) STATE_FILE
     = Some (dumps py (JObj [(''version'', JInt 2)]))
   \<and> \<not> read_denied (with_file STATE_FILE (dumps py (JObj [(''version'', JInt 2)])) world0) STATE_FILE
   \<and> loads py (dumps py (JObj [(''version'', JInt 2)])) = Inr (JObj [(''version'', JInt 2)])
   \<and> load_state py (with_file STATE_FILE (dumps py (JObj [(''version'', JInt 2)])) world0)
        \<lparr>state = JArr []\<rparr>
      = (with_file STATE_FILE (dumps py (JObj [(''version'', JInt 2)])) world0,
         \<lparr>state = JObj [(''version'', JInt 2)]\<rparr>)"
proof -
  let ?v = "JObj [(''version'', JInt 2)]"
  let ?w = "with_file STATE_FILE (dumps py ?v) world0"
  have rt: "loads py (dumps py ?v) = Inr ?v"
    by code_simp
  have f: "files ?w STATE_FILE = Some (dumps py ?v)"
    by (simp add: with_file_def)
  have r: "\<not> read_denied ?w STATE_FILE"
    by (simp add: with_file_def world0_def)
  show ?thesis
    using load_state_any_value[OF f r rt, of "\<lparr>state = JArr []\<rparr>"] f r rt by simp
qed

section \<open>The JSON library of the concrete runs reads back what it writes\<close>

text \<open>
  Decimal text: the digits of a number give the number back, and a number's text ends
  where the digits end.
\<close>

lemma digit_val_digit: "d < 10 \<Longrightarrow> digit_val (digit d) = d"
proof -
  assume "d < 10"
  then have "d \<in> {0,1,2,3,4,5,6,7,8,9}" by auto
  then show ?thesis by (auto simp: digit_val_def digit_def)
qed

lemma nat_of_digits_snoc: "nat_of_digits (ds @ [c]) = 10 * nat_of_digits ds + digit_val c"
  by (simp add: nat_of_digits_def)

lemma nat_of_digits_str_nat: "nat_of_digits (str_nat n) = n"
proof (induction n rule: str_nat.induct)
  case (1 n)
  show ?case
  proof (cases "n < 10")
    case True
    then show ?thesis
      by (subst str_nat.simps) (simp add: nat_of_digits_def digit_val_digit)
  next
    case False
    with 1 have "nat_of_digits (str_nat (n div 10)) = n div 10" by simp
    with False show ?thesis
      by (subst str_nat.simps) (simp add: nat_of_digits_snoc digit_val_digit)
  qed
qed

lemma str_nat_nonempty: "str_nat n \<noteq> []"
  by (subst str_nat.simps) simp

lemma digit_is_digit: "d < 10 \<Longrightarrow> is_digit (digit d)"
proof -
  assume "d < 10"
  then have "d \<in> {0,1,2,3,4,5,6,7,8,9}" by auto
  then show ?thesis by (auto simp: digit_def is_digit_def)
qed

lemma str_nat_digits: "\<forall>c \<in> set (str_nat n). is_digit c"
proof (induction n rule: str_nat.induct)
  case (1 n)
  show ?case
  proof (cases "n < 10")
    case True
    then show ?thesis by (subst str_nat.simps) (simp add: digit_is_digit)
  next
    case False
    with 1 have "\<forall>c \<in> set (str_nat (n div 10)). is_digit c" by simp
    with False show ?thesis by (subst str_nat.simps) (simp add: digit_is_digit)
  qed
qed

lemma not_digit_minus: "\<not> is_digit CHR ''-''"
  by (simp add: is_digit_def)

lemma span_str_nat:
  assumes "r = [] \<or> \<not> is_digit (hd r)"
  shows "takeWhile is_digit (str_nat n @ r) = str_nat n"
    and "dropWhile is_digit (str_nat n @ r) = r"
proof -
  have t: "takeWhile is_digit r = []" and d: "dropWhile is_digit r = r"
    using assms by (cases r; simp)+
  show "takeWhile is_digit (str_nat n @ r) = str_nat n"
    using str_nat_digits[of n] t by (simp add: takeWhile_append2)
  show "dropWhile is_digit (str_nat n @ r) = r"
    using str_nat_digits[of n] d by (simp add: dropWhile_append2)
qed

lemma hd_str_nat_digit: "is_digit (hd (str_nat n))"
  using str_nat_digits[of n] str_nat_nonempty[of n] by (cases "str_nat n") auto

lemma parse_int_str_int:
  assumes "r = [] \<or> \<not> is_digit (hd r)"
  shows "parse_int (str_int i @ r) = Some (i, r)"
proof (cases "i < 0")
  case True
  then show ?thesis
    using span_str_nat[OF assms, of "nat (- i)"] str_nat_nonempty[of "nat (- i)"]
    by (simp add: parse_int_def str_int_def Let_def nat_of_digits_str_nat)
next
  case False
  have "hd (str_nat (nat i) @ r) \<noteq> CHR ''-''"
    using hd_str_nat_digit[of "nat i"] str_nat_nonempty[of "nat i"] not_digit_minus
    by (cases "str_nat (nat i)") auto
  then show ?thesis
    using False span_str_nat[OF assms, of "nat i"] str_nat_nonempty[of "nat i"]
    by (simp add: parse_int_def str_int_def Let_def nat_of_digits_str_nat)
qed

lemma sep_not_digit: "sep r \<Longrightarrow> r = [] \<or> \<not> is_digit (hd r)"
  by (auto simp: sep_def is_digit_def)

lemma parse_number_int:
  assumes "sep r"
  shows "parse_number (str_int i @ r) = Some (JInt i, r)"
proof -
  have "parse_int (str_int i @ r) = Some (i, r)"
    using assms by (simp add: parse_int_str_int sep_not_digit)
  moreover have "r = [] \<or> hd r \<noteq> CHR ''e''" using assms by (auto simp: sep_def)
  ultimately show ?thesis by (cases r) (auto simp: parse_number_def)
qed

lemma parse_number_float:
  assumes "sep r"
  shows "parse_number (str_int m @ ''e'' @ str_int e @ r) = Some (JFloat m e, r)"
proof -
  have "parse_int (str_int m @ (CHR ''e'' # str_int e @ r)) = Some (m, CHR ''e'' # str_int e @ r)"
    by (rule parse_int_str_int) (simp add: is_digit_def)
  moreover have "parse_int (str_int e @ r) = Some (e, r)"
    using assms by (simp add: parse_int_str_int sep_not_digit)
  ultimately show ?thesis by (simp add: parse_number_def)
qed

lemma parse_chars_escape: "parse_chars (escape s @ CHR 0x22 # r) = Some (s, r)"
proof (induction s)
  case Nil
  then show ?case by (cases r) simp_all
next
  case (Cons c s)
  obtain d ds where t: "escape s @ CHR 0x22 # r = d # ds"
    by (cases "escape s @ CHR 0x22 # r") auto
  show ?case
    using Cons t by (auto simp: t)
qed

lemma skip_ws_indent: "skip_ws (indent k @ s) = skip_ws s"
proof -
  have "\<forall>c \<in> set (indent k). is_ws c"
    by (simp add: indent_def is_ws_def)
  then show ?thesis
    unfolding skip_ws_def by (intro dropWhile_append2) simp
qed

lemma skip_ws_nl: "skip_ws (CHR 0x0A # s) = skip_ws s"
  by (simp add: skip_ws_def is_ws_def)

lemma skip_ws_sp: "skip_ws (CHR '' '' # s) = skip_ws s"
  by (simp add: skip_ws_def is_ws_def)

lemma skip_ws_stop: "\<not> is_ws c \<Longrightarrow> skip_ws (c # s) = c # s"
  by (simp add: skip_ws_def)

lemma parse_value_skip: "skip_ws s = skip_ws t \<Longrightarrow> parse_value n s = parse_value n t"
  by (cases n) simp_all

lemma parse_items_skip: "skip_ws s = skip_ws t \<Longrightarrow> parse_items n s = parse_items n t"
  by (cases n) (simp_all add: parse_value_skip[of s t])

lemma parse_members_skip: "skip_ws s = skip_ws t \<Longrightarrow> parse_members n s = parse_members n t"
  by (cases n) simp_all

lemma str_int_head: "\<exists>c cs. str_int i = c # cs \<and> (is_digit c \<or> c = CHR ''-'')"
proof (cases "i < 0")
  case True
  then show ?thesis by (simp add: str_int_def)
next
  case False
  obtain c cs where "str_nat (nat i) = c # cs"
    using str_nat_nonempty[of "nat i"] by (cases "str_nat (nat i)") auto
  then show ?thesis
    using False hd_str_nat_digit[of "nat i"] by (simp add: str_int_def)
qed

lemma starter_props:
  "starter c \<Longrightarrow> \<not> is_ws c \<and> c \<noteq> CHR '']'' \<and> c \<noteq> CHR ''}''"
  by (auto simp: starter_def is_digit_def is_ws_def)

lemma dumps_head: "\<exists>c cs. json_dumps_at k v = c # cs \<and> starter c"
proof (cases v)
  case (JInt i)
  then show ?thesis using str_int_head[of i] by (auto simp: starter_def)
next
  case (JFloat m e)
  then show ?thesis using str_int_head[of m] by (auto simp: starter_def)
qed (auto simp: starter_def quote_def)

lemma parse_value_number:
  "is_digit c \<or> c = CHR ''-'' \<Longrightarrow> parse_value (Suc n) (c # cs) = parse_number (c # cs)"
  by (auto simp: skip_ws_def is_ws_def is_digit_def)

lemma parse_value_open_arr:
  "skip_ws s = c # cs \<Longrightarrow> c \<noteq> CHR '']'' \<Longrightarrow>
   parse_value (Suc n) (CHR ''['' # s) = map_option (\<lambda>(xs, r). (JArr xs, r)) (parse_items n s)"
  by (simp add: skip_ws_stop is_ws_def)

lemma parse_value_open_obj:
  "skip_ws s = c # cs \<Longrightarrow> c \<noteq> CHR ''}'' \<Longrightarrow>
   parse_value (Suc n) (CHR ''{'' # s) = map_option (\<lambda>(kvs, r). (JObj kvs, r)) (parse_members n s)"
  by (simp add: skip_ws_stop is_ws_def)

lemma items_head:
  "xs \<noteq> [] \<Longrightarrow> \<exists>c cs. skip_ws (dumps_items k xs @ t) = c # cs \<and> starter c"
proof (cases xs)
  case Nil
  then show "xs \<noteq> [] \<Longrightarrow> ?thesis" by simp
next
  case (Cons x ys)
  obtain c cs where h: "json_dumps_at k x = c # cs" "starter c"
    using dumps_head by blast
  then have "\<not> is_ws c" using starter_props by blast
  then show ?thesis
    using Cons h by (simp add: skip_ws_indent skip_ws_stop)
qed

lemma members_head:
  "kvs \<noteq> [] \<Longrightarrow> \<exists>cs. skip_ws (dumps_members k kvs @ t) = CHR 0x22 # cs"
  by (cases kvs) (simp_all add: skip_ws_indent quote_def skip_ws_stop is_ws_def)

lemma sep_simps: "sep []" "sep (CHR '','' # s)" "sep (CHR 0x0A # s)"
  by (simp_all add: sep_def)

lemma round_trip_all:
  "\<forall>n r. need v \<le> n \<longrightarrow> sep r \<longrightarrow> parse_value n (json_dumps_at k v @ r) = Some (v, r)"
  "\<forall>n r j. xs \<noteq> [] \<longrightarrow> need_items xs \<le> n \<longrightarrow>
     parse_items n (dumps_items k xs @ CHR 0x0A # indent j @ CHR '']'' # r) = Some (xs, r)"
  "\<forall>n r j. kvs \<noteq> [] \<longrightarrow> need_members kvs \<le> n \<longrightarrow>
     parse_members n (dumps_members k kvs @ CHR 0x0A # indent j @ CHR ''}'' # r) = Some (kvs, r)"
proof (induction k v and k xs and k kvs rule: json_dumps_at_dumps_items_dumps_members.induct)
  case (1 k)
  show ?case
  proof (intro allI impI)
    fix n r assume "need JNull \<le> n"
    then obtain n' where "n = Suc n'" by (cases n) auto
    then show "parse_value n (json_dumps_at k JNull @ r) = Some (JNull, r)"
      by (simp add: skip_ws_stop is_ws_def strip_prefix_def)
  qed
next
  case (2 k b)
  show ?case
  proof (intro allI impI)
    fix n r assume "need (JBool b) \<le> n"
    then obtain n' where "n = Suc n'" by (cases n) auto
    then show "parse_value n (json_dumps_at k (JBool b) @ r) = Some (JBool b, r)"
      by (cases b) (simp_all add: skip_ws_stop is_ws_def strip_prefix_def)
  qed
next
  case (3 k i)
  show ?case
  proof (intro allI impI)
    fix n r assume "need (JInt i) \<le> n" and s: "sep r"
    then obtain n' where n: "n = Suc n'" by (cases n) auto
    obtain c cs where h: "str_int i = c # cs" "is_digit c \<or> c = CHR ''-''"
      using str_int_head by blast
    have "parse_value n (str_int i @ r) = parse_number (str_int i @ r)"
      using h n parse_value_number[of c n' "cs @ r"] by simp
    then show "parse_value n (json_dumps_at k (JInt i) @ r) = Some (JInt i, r)"
      using s by (simp add: parse_number_int)
  qed
next
  case (4 k m e)
  show ?case
  proof (intro allI impI)
    fix n r assume "need (JFloat m e) \<le> n" and s: "sep r"
    then obtain n' where n: "n = Suc n'" by (cases n) auto
    obtain c cs where h: "str_int m = c # cs" "is_digit c \<or> c = CHR ''-''"
      using str_int_head by blast
    have "parse_value n (str_int m @ ''e'' @ str_int e @ r)
          = parse_number (str_int m @ ''e'' @ str_int e @ r)"
      using h n parse_value_number[of c n' "cs @ ''e'' @ str_int e @ r"] by simp
    then show "parse_value n (json_dumps_at k (JFloat m e) @ r) = Some (JFloat m e, r)"
      using s parse_number_float[of r m e] by simp
  qed
next
  case (5 k s)
  show ?case
  proof (intro allI impI)
    fix n r assume "need (JStr s) \<le> n"
    then obtain n' where "n = Suc n'" by (cases n) auto
    then show "parse_value n (json_dumps_at k (JStr s) @ r) = Some (JStr s, r)"
      by (simp add: quote_def skip_ws_stop is_ws_def parse_chars_escape)
  qed
next
  case (6 k xs)
  show ?case
  proof (intro allI impI)
    fix n r assume nd: "need (JArr xs) \<le> n"
    then obtain n' where n: "n = Suc n'" and ni: "need_items xs \<le> n'" by (cases n) auto
    show "parse_value n (json_dumps_at k (JArr xs) @ r) = Some (JArr xs, r)"
    proof (cases "xs = []")
      case True
      then show ?thesis using n by (simp add: skip_ws_stop is_ws_def)
    next
      case False
      let ?t = "CHR 0x0A # indent k @ CHR '']'' # r"
      let ?s = "CHR 0x0A # dumps_items (Suc k) xs @ ?t"
      obtain c cs where h: "skip_ws (dumps_items (Suc k) xs @ ?t) = c # cs" "starter c"
        using items_head[OF False] by blast
      then have h1: "skip_ws ?s = c # cs" and h2: "c \<noteq> CHR '']''"
        using starter_props by (simp_all add: skip_ws_nl)
      have "parse_items n' ?s = parse_items n' (dumps_items (Suc k) xs @ ?t)"
        by (rule parse_items_skip) (simp add: skip_ws_nl)
      also have "\<dots> = Some (xs, r)"
        using 6 False ni by simp
      finally have "parse_items n' ?s = Some (xs, r)" .
      then have "parse_value (Suc n') (CHR ''['' # ?s) = Some (JArr xs, r)"
        using parse_value_open_arr[OF h1 h2, of n'] by simp
      then show ?thesis using False n by simp
    qed
  qed
next
  case (7 k kvs)
  show ?case
  proof (intro allI impI)
    fix n r assume nd: "need (JObj kvs) \<le> n"
    then obtain n' where n: "n = Suc n'" and ni: "need_members kvs \<le> n'" by (cases n) auto
    show "parse_value n (json_dumps_at k (JObj kvs) @ r) = Some (JObj kvs, r)"
    proof (cases "kvs = []")
      case True
      then show ?thesis using n by (simp add: skip_ws_stop is_ws_def)
    next
      case False
      let ?t = "CHR 0x0A # indent k @ CHR ''}'' # r"
      let ?s = "CHR 0x0A # dumps_members (Suc k) kvs @ ?t"
      obtain cs where h: "skip_ws (dumps_members (Suc k) kvs @ ?t) = CHR 0x22 # cs"
        using members_head[OF False] by blast
      then have h1: "skip_ws ?s = CHR 0x22 # cs"
        by (simp add: skip_ws_nl)
      have "parse_members n' ?s = parse_members n' (dumps_members (Suc k) kvs @ ?t)"
        by (rule parse_members_skip) (simp add: skip_ws_nl)
      also have "\<dots> = Some (kvs, r)"
        using 7 False ni by simp
      finally have "parse_members n' ?s = Some (kvs, r)" .
      then have "parse_value (Suc n') (CHR ''{'' # ?s) = Some (JObj kvs, r)"
        using parse_value_open_obj[OF h1, of n'] by simp
      then show ?thesis using False n by simp
    qed
  qed
next
  case (8 k)
  show ?case by simp
next
  case (9 k x xs)
  show ?case
  proof (intro allI impI)
    fix n r j assume nd: "need_items (x # xs) \<le> n"
    then obtain n' where n: "n = Suc n'" and nx: "need x \<le> n'" and nxs: "need_items xs \<le> n'"
      by (cases n) auto
    let ?t = "CHR 0x0A # indent j @ CHR '']'' # r"
    let ?rest = "(if xs = [] then [] else '','' @ [CHR 0x0A] @ dumps_items k xs) @ ?t"
    have sp: "sep ?rest" by (simp add: sep_simps)
    have "parse_value n' (indent k @ json_dumps_at k x @ ?rest)
          = parse_value n' (json_dumps_at k x @ ?rest)"
      by (rule parse_value_skip) (simp add: skip_ws_indent)
    also have "\<dots> = Some (x, ?rest)"
      using 9(1) nx sp by blast
    finally have pv: "parse_value n' (indent k @ json_dumps_at k x @ ?rest) = Some (x, ?rest)" .
    have dtext: "dumps_items k (x # xs) @ ?t = indent k @ json_dumps_at k x @ ?rest"
      by simp
    show "parse_items n (dumps_items k (x # xs) @ ?t) = Some (x # xs, r)"
    proof (cases "xs = []")
      case True
      then have "skip_ws ?rest = CHR '']'' # r"
        by (simp add: skip_ws_nl skip_ws_indent skip_ws_stop is_ws_def)
      then show ?thesis
        unfolding dtext n using pv True by simp
    next
      case False
      have "parse_items n' (CHR 0x0A # dumps_items k xs @ ?t) = parse_items n' (dumps_items k xs @ ?t)"
        by (rule parse_items_skip) (simp add: skip_ws_nl)
      also have "\<dots> = Some (xs, r)"
        using 9(2) False nxs by simp
      finally have pi: "parse_items n' (CHR 0x0A # dumps_items k xs @ ?t) = Some (xs, r)" .
      have "skip_ws ?rest = CHR '','' # CHR 0x0A # dumps_items k xs @ ?t"
        using False by (simp add: skip_ws_stop is_ws_def)
      then show ?thesis
        unfolding dtext n using pv pi False by simp
    qed
  qed
next
  case (10 k)
  show ?case by simp
next
  case (11 k kv kvs)
  show ?case
  proof (intro allI impI)
    fix n r j assume nd: "need_members (kv # kvs) \<le> n"
    then obtain n' where n: "n = Suc n'" and nx: "need (snd kv) \<le> n'"
      and nxs: "need_members kvs \<le> n'"
      by (cases n) auto
    let ?t = "CHR 0x0A # indent j @ CHR ''}'' # r"
    let ?rest = "(if kvs = [] then [] else '','' @ [CHR 0x0A] @ dumps_members k kvs) @ ?t"
    have sp: "sep ?rest" by (simp add: sep_simps)
    have "parse_value n' (CHR '' '' # json_dumps_at k (snd kv) @ ?rest)
          = parse_value n' (json_dumps_at k (snd kv) @ ?rest)"
      by (rule parse_value_skip) (simp add: skip_ws_sp)
    also have "\<dots> = Some (snd kv, ?rest)"
      using 11(1) nx sp by blast
    finally have pv: "parse_value n' (CHR '' '' # json_dumps_at k (snd kv) @ ?rest)
                      = Some (snd kv, ?rest)" .
    let ?after = "CHR '':'' # CHR '' '' # json_dumps_at k (snd kv) @ ?rest"
    have dtext: "dumps_members k (kv # kvs) @ ?t = indent k @ CHR 0x22 # escape (fst kv) @ CHR 0x22 # ?after"
      by (simp add: quote_def)
    have sk: "skip_ws (indent k @ CHR 0x22 # escape (fst kv) @ CHR 0x22 # ?after)
              = CHR 0x22 # escape (fst kv) @ CHR 0x22 # ?after"
      by (simp add: skip_ws_indent skip_ws_stop is_ws_def)
    have pc: "parse_chars (escape (fst kv) @ CHR 0x22 # ?after) = Some (fst kv, ?after)"
      by (rule parse_chars_escape)
    have sa: "skip_ws ?after = ?after"
      by (simp add: skip_ws_stop is_ws_def)
    show "parse_members n (dumps_members k (kv # kvs) @ ?t) = Some (kv # kvs, r)"
    proof (cases "kvs = []")
      case True
      then have "skip_ws ?rest = CHR ''}'' # r"
        by (simp add: skip_ws_nl skip_ws_indent skip_ws_stop is_ws_def)
      then show ?thesis
        unfolding dtext n using pv True sk pc sa by simp
    next
      case False
      have "parse_members n' (CHR 0x0A # dumps_members k kvs @ ?t)
            = parse_members n' (dumps_members k kvs @ ?t)"
        by (rule parse_members_skip) (simp add: skip_ws_nl)
      also have "\<dots> = Some (kvs, r)"
        using 11(2) False nxs by simp
      finally have pi: "parse_members n' (CHR 0x0A # dumps_members k kvs @ ?t) = Some (kvs, r)" .
      have "skip_ws ?rest = CHR '','' # CHR 0x0A # dumps_members k kvs @ ?t"
        using False by (simp add: skip_ws_stop is_ws_def)
      then show ?thesis
        unfolding dtext n using pv pi False sk pc sa by simp
    qed
  qed
qed

lemma need_le_length:
  "need v \<le> length (json_dumps_at k v)"
  "need_items xs \<le> Suc (length (dumps_items k xs))"
  "need_members kvs \<le> Suc (length (dumps_members k kvs))"
proof (induction k v and k xs and k kvs rule: json_dumps_at_dumps_items_dumps_members.induct)
  case (3 k i)
  obtain c cs where "str_int i = c # cs" using str_int_head by blast
  then show ?case by simp
next
  case (4 k m e)
  obtain c cs where "str_int m = c # cs" using str_int_head by blast
  then show ?case by simp
qed (auto simp: quote_def)

lemma json_round_trip: "json_loads (json_dumps v) = Inr v"
proof -
  let ?n = "Suc (2 * length (json_dumps_at 0 v))"
  have b: "need v \<le> ?n"
    using need_le_length(1)[of v 0] by simp
  have "parse_value ?n (json_dumps_at 0 v @ []) = Some (v, [])"
    using round_trip_all(1)[of v 0] b sep_simps(1) by blast
  then have "parse_value ?n (json_dumps_at 0 v) = Some (v, [])"
    by (simp only: append_Nil2)
  then show ?thesis
    by (simp add: json_loads_def json_dumps_def skip_ws_def del: parse_value.simps)
qed

lemma py_reads_back: "loads py (dumps py v) = Inr v"
  by (simp add: py_def json_round_trip)

section \<open>Sequences of operations: the count and the round trip (C1)\<close>

text \<open>
  What a run of appends and removals keeps true, when saving succeeds: no call raises,
  the state stays a list whose length is accounted for by the calls, and the backing
  file holds the serialisation of the state as soon as one call has changed it; until
  then file and state are what they were.
\<close>

lemma run_invariant:
  assumes "state m = JArr xs" "write_result w STATE_FILE = Written"
  shows "\<exists>rs w' m' ys. run lib ops w m = Inr (rs, w', m') \<and> state m' = JArr ys
           \<and> length ys + removals rs = length xs + appends ops
           \<and> read_denied w' = read_denied w
           \<and> (files w' STATE_FILE = Some (dumps lib (JArr ys))
               \<or> files w' STATE_FILE = files w STATE_FILE \<and> ys = xs
                  \<and> appends ops + removals rs = 0)"
  using assms
proof (induction ops arbitrary: w m xs)
  case Nil
  then show ?case by (simp add: removals_def appends_def)
next
  case (Cons x ops)
  show ?case
  proof (cases x)
    case (Append entry)
    let ?m1 = "m\<lparr>state := JArr (xs @ [entry])\<rparr>"
    let ?w1 = "save_state lib w ?m1"
    have st: "state ?m1 = JArr (xs @ [entry])" by simp
    have wr: "write_result ?w1 STATE_FILE = Written"
      using Cons.prems(2) by (simp add: save_state_written)
    from Cons.IH[OF st wr] obtain rs w' m' ys where
      r: "run lib ops ?w1 ?m1 = Inr (rs, w', m')" and s: "state m' = JArr ys"
      and c: "length ys + removals rs = length (xs @ [entry]) + appends ops"
      and rd: "read_denied w' = read_denied ?w1"
      and f: "files w' STATE_FILE = Some (dumps lib (JArr ys))
               \<or> files w' STATE_FILE = files ?w1 STATE_FILE \<and> ys = xs @ [entry]
                  \<and> appends ops + removals rs = 0"
      by blast
    have f1: "files ?w1 STATE_FILE = Some (dumps lib (JArr (xs @ [entry])))"
      using Cons.prems(2) by (simp add: save_state_written)
    have "run lib (x # ops) w m = Inr (Appended # rs, w', m')"
      using Append r Cons.prems(1) by (simp add: add_entry_list)
    moreover have "length ys + removals (Appended # rs) = length xs + appends (x # ops)"
      using c Append by (simp add: removals_def appends_def)
    moreover have "read_denied w' = read_denied w"
      using rd Cons.prems(2) by (simp add: save_state_written)
    moreover have "files w' STATE_FILE = Some (dumps lib (JArr ys))"
      using f f1 by auto
    ultimately show ?thesis using s by blast
  next
    case (RemoveAt i)
    show ?thesis
    proof (cases "0 \<le> i \<and> i < int (length xs)")
      case True
      let ?zs = "take (nat i) xs @ drop (Suc (nat i)) xs"
      let ?m1 = "m\<lparr>state := JArr ?zs\<rparr>"
      let ?w1 = "save_state lib w ?m1"
      have st: "state ?m1 = JArr ?zs" by simp
      have wr: "write_result ?w1 STATE_FILE = Written"
        using Cons.prems(2) by (simp add: save_state_written)
      from Cons.IH[OF st wr] obtain rs w' m' ys where
        r: "run lib ops ?w1 ?m1 = Inr (rs, w', m')" and s: "state m' = JArr ys"
        and c: "length ys + removals rs = length ?zs + appends ops"
        and rd: "read_denied w' = read_denied ?w1"
        and f: "files w' STATE_FILE = Some (dumps lib (JArr ys))
                 \<or> files w' STATE_FILE = files ?w1 STATE_FILE \<and> ys = ?zs
                    \<and> appends ops + removals rs = 0"
        by blast
      have f1: "files ?w1 STATE_FILE = Some (dumps lib (JArr ?zs))"
        using Cons.prems(2) by (simp add: save_state_written)
      have len: "Suc (length ?zs) = length xs"
        using True by auto
      have "run lib (x # ops) w m = Inr (Removed (xs ! nat i) # rs, w', m')"
        using RemoveAt r Cons.prems(1) True by (simp add: remove_entry_list)
      moreover have "length ys + removals (Removed (xs ! nat i) # rs) = length xs + appends (x # ops)"
        using c RemoveAt len by (simp add: removals_def appends_def)
      moreover have "read_denied w' = read_denied w"
        using rd Cons.prems(2) by (simp add: save_state_written)
      moreover have "files w' STATE_FILE = Some (dumps lib (JArr ys))"
        using f f1 by auto
      ultimately show ?thesis using s by blast
    next
      case False
      from Cons.IH[OF Cons.prems] obtain rs w' m' ys where
        r: "run lib ops w m = Inr (rs, w', m')" and s: "state m' = JArr ys"
        and c: "length ys + removals rs = length xs + appends ops"
        and rd: "read_denied w' = read_denied w"
        and f: "files w' STATE_FILE = Some (dumps lib (JArr ys))
                 \<or> files w' STATE_FILE = files w STATE_FILE \<and> ys = xs
                    \<and> appends ops + removals rs = 0"
        by blast
      have "run lib (x # ops) w m = Inr (NotFound # rs, w', m')"
        using RemoveAt r Cons.prems(1) False by (auto simp: remove_entry_list)
      moreover have "length ys + removals (NotFound # rs) = length xs + appends (x # ops)"
        using c RemoveAt by (simp add: removals_def appends_def)
      moreover have "appends (x # ops) + removals (NotFound # rs) = appends ops + removals rs"
        using RemoveAt by (simp add: removals_def appends_def)
      ultimately show ?thesis using s rd f by auto
    qed
  qed
qed

text \<open>
  C1. Take a registry whose state is a sequence \<open>xs\<close>, in step with its backing file (a
  registry constructed anew on the same machine loads \<open>xs\<close>), on a machine where writing
  the backing file succeeds and reading it is permitted. Then every sequence of
  \<open>add_entry\<close> and \<open>remove_entry\<close> calls returns, and the state is a sequence \<open>ys\<close> with
  \<open>length ys = length xs + appends - successful removals\<close> (for the empty registry the
  number of appends minus the number of successful removals). Once a call has changed
  the registry the backing file holds exactly \<open>json.dump\<close> of \<open>ys\<close>. And reloading gives
  \<open>ys\<close> back: a registry constructed anew on the resulting machine holds \<open>ys\<close>, and so
  does any registry, whatever it held, after \<open>load_state\<close>, provided the json library
  reads back what it wrote for \<open>ys\<close>.
\<close>

theorem registry_count_and_round_trip:
  assumes "state m = JArr xs"
    and "write_result w STATE_FILE = Written"
    and "\<not> read_denied w STATE_FILE"
    and "state (snd (DesktopEntryManager_init lib w)) = JArr xs"
  shows "\<exists>rs w' m' ys. run lib ops w m = Inr (rs, w', m') \<and> state m' = JArr ys
           \<and> length ys + removals rs = length xs + appends ops
           \<and> (0 < appends ops + removals rs \<longrightarrow>
                files w' STATE_FILE = Some (dumps lib (JArr ys)))
           \<and> (loads lib (dumps lib (JArr ys)) = Inr (JArr ys) \<longrightarrow>
                state (snd (DesktopEntryManager_init lib w')) = JArr ys
                \<and> (\<forall>m0. state (snd (load_state lib w' m0)) = JArr ys))"
proof -
  from run_invariant[OF assms(1,2), of lib ops] obtain rs w' m' ys where
    r: "run lib ops w m = Inr (rs, w', m')" and s: "state m' = JArr ys"
    and c: "length ys + removals rs = length xs + appends ops"
    and rd: "read_denied w' = read_denied w"
    and f: "files w' STATE_FILE = Some (dumps lib (JArr ys))
             \<or> files w' STATE_FILE = files w STATE_FILE \<and> ys = xs
                \<and> appends ops + removals rs = 0"
    by blast
  have saved: "0 < appends ops + removals rs \<longrightarrow>
               files w' STATE_FILE = Some (dumps lib (JArr ys))"
    using f by auto
  have reload: "state (snd (load_state lib w' m0)) = JArr ys"
    if rt: "loads lib (dumps lib (JArr ys)) = Inr (JArr ys)" for m0
  proof -
    from f show ?thesis
    proof
      assume "files w' STATE_FILE = Some (dumps lib (JArr ys))"
      then show ?thesis using rt rd assms(3) by (simp add: load_state_of_dump)
    next
      assume a: "files w' STATE_FILE = files w STATE_FILE \<and> ys = xs
                 \<and> appends ops + removals rs = 0"
      then have "state (snd (load_state lib w' m0))
                 = state (snd (load_state lib w \<lparr>state = JArr []\<rparr>))"
        using rd by (simp add: load_state_depends)
      then show ?thesis using a assms(4) by (simp add: DesktopEntryManager_init_def)
    qed
  qed
  have fresh: "loads lib (dumps lib (JArr ys)) = Inr (JArr ys) \<longrightarrow>
               state (snd (DesktopEntryManager_init lib w')) = JArr ys
               \<and> (\<forall>m0. state (snd (load_state lib w' m0)) = JArr ys)"
    using reload by (simp add: DesktopEntryManager_init_def)
  show ?thesis
    using r s c saved fresh by (intro exI[of _ rs] exI[of _ w'] exI[of _ m'] exI[of _ ys]) simp
qed

text \<open>
  From the empty registry with no backing file: two appends, a removal out of bounds and
  a removal at position 0 leave one record; the backing file holds its serialisation,
  and a registry constructed anew, or one holding something else, loads that record.
  And with the library above, which reads back all it writes, every sequence of calls
  on the empty registry ends with appends minus successful removals records, which a
  reload gives back.
\<close>

theorem registry_count_and_round_trip_witness:
  "state \<lparr>state = JArr []\<rparr> = JArr []
   \<and> write_result world0 STATE_FILE = Written
   \<and> \<not> read_denied world0 STATE_FILE
   \<and> state (snd (DesktopEntryManager_init py world0)) = JArr []
   \<and> appends [Append sample_a, Append sample_b, RemoveAt 7, RemoveAt 0] = 2
   \<and> (\<exists>rs w' m'.
         run py [Append sample_a, Append sample_b, RemoveAt 7, RemoveAt 0] world0 \<lparr>state = JArr []\<rparr>
           = Inr (rs, w', m')
         \<and> rs = [Appended, Appended, NotFound, Removed sample_a]
         \<and> removals rs = 1
         \<and> state m' = JArr [sample_b]
         \<and> files w' STATE_FILE = Some (dumps py (JArr [sample_b]))
         \<and> loads py (dumps py (JArr [sample_b])) = Inr (JArr [sample_b])
         \<and> state (snd (DesktopEntryManager_init py w')) = JArr [sample_b]
         \<and> state (snd (load_state py w' \<lparr>state = JInt 7\<rparr>)) = JArr [sample_b])
   \<and> (\<forall>ops. \<exists>rs w' m' ys.
         run py ops world0 \<lparr>state = JArr []\<rparr> = Inr (rs, w', m')
         \<and> state m' = JArr ys
         \<and> length ys + removals rs = appends ops
         \<and> state (snd (DesktopEntryManager_init py w')) = JArr ys
         \<and> (\<forall>m0. state (snd (load_state py w' m0)) = JArr ys))"
proof -
  let ?ops = "[Append sample_a, Append sample_b, RemoveAt 7, RemoveAt 0]"
  let ?m = "\<lparr>state = JArr []\<rparr>"
  have h1: "state ?m = JArr []" by simp
  have h2: "write_result world0 STATE_FILE = Written" by (simp add: world0_def)
  have h3: "\<not> read_denied world0 STATE_FILE" by (simp add: world0_def)
  have h4: "state (snd (DesktopEntryManager_init py world0)) = JArr []"
    by (simp add: DesktopEntryManager_init_def load_state_def world0_def)
  have ap: "appends ?ops = 2" by (simp add: appends_def)
  have rt: "loads py (dumps py (JArr [sample_b])) = Inr (JArr [sample_b])"
    by (rule py_reads_back)
  have ev: "case run py ?ops world0 ?m of
              Inl e \<Rightarrow> False
            | Inr (rs, w', m') \<Rightarrow>
                rs = [Appended, Appended, NotFound, Removed sample_a] \<and> state m' = JArr [sample_b]"
    by code_simp
  from registry_count_and_round_trip[OF h1 h2 h3 h4, of ?ops] obtain rs w' m' ys where
    r: "run py ?ops world0 ?m = Inr (rs, w', m')" and s: "state m' = JArr ys"
    and sv: "0 < appends ?ops + removals rs \<longrightarrow> files w' STATE_FILE = Some (dumps py (JArr ys))"
    and l: "loads py (dumps py (JArr ys)) = Inr (JArr ys)
             \<longrightarrow> state (snd (DesktopEntryManager_init py w')) = JArr ys
                 \<and> (\<forall>m0. state (snd (load_state py w' m0)) = JArr ys)"
    by (elim exE conjE)
  from ev r have rs: "rs = [Appended, Appended, NotFound, Removed sample_a]"
    and s': "state m' = JArr [sample_b]" by simp_all
  from s s' have ys: "ys = [sample_b]" by simp
  from l ys rt have l1: "state (snd (DesktopEntryManager_init py w')) = JArr [sample_b]"
    and l2: "state (snd (load_state py w' \<lparr>state = JInt 7\<rparr>)) = JArr [sample_b]" by simp_all
  from sv ap ys have f: "files w' STATE_FILE = Some (dumps py (JArr [sample_b]))" by simp
  have every: "\<exists>rs w' m' ys.
         run py ops world0 ?m = Inr (rs, w', m')
         \<and> state m' = JArr ys
         \<and> length ys + removals rs = appends ops
         \<and> state (snd (DesktopEntryManager_init py w')) = JArr ys
         \<and> (\<forall>m0. state (snd (load_state py w' m0)) = JArr ys)" for ops
  proof -
    from registry_count_and_round_trip[OF h1 h2 h3 h4, of ops] obtain rs w' m' ys where
      a: "run py ops world0 ?m = Inr (rs, w', m')" and b: "state m' = JArr ys"
      and c: "length ys + removals rs = length ([] :: json list) + appends ops"
      and d: "loads py (dumps py (JArr ys)) = Inr (JArr ys)
               \<longrightarrow> state (snd (DesktopEntryManager_init py w')) = JArr ys
                   \<and> (\<forall>m0. state (snd (load_state py w' m0)) = JArr ys)"
      by (elim exE conjE)
    from d py_reads_back[of "JArr ys"]
    have "state (snd (DesktopEntryManager_init py w')) = JArr ys
          \<and> (\<forall>m0. state (snd (load_state py w' m0)) = JArr ys)" by simp
    then show ?thesis
      using a b c by (intro exI[of _ rs] exI[of _ w'] exI[of _ m'] exI[of _ ys]) simp
  qed
  have one: "removals rs = 1" using rs by (simp add: removals_def)
  have concrete: "\<exists>rs w' m'.
         run py ?ops world0 ?m = Inr (rs, w', m')
         \<and> rs = [Appended, Appended, NotFound, Removed sample_a]
         \<and> removals rs = 1
         \<and> state m' = JArr [sample_b]
         \<and> files w' STATE_FILE = Some (dumps py (JArr [sample_b]))
         \<and> loads py (dumps py (JArr [sample_b])) = Inr (JArr [sample_b])
         \<and> state (snd (DesktopEntryManager_init py w')) = JArr [sample_b]
         \<and> state (snd (load_state py w' \<lparr>state = JInt 7\<rparr>)) = JArr [sample_b]"
    using r rs s' rt l1 l2 f one
    by (intro exI[of _ rs] exI[of _ w'] exI[of _ m']) simp
  show ?thesis
    using h1 h2 h3 h4 ap concrete every by (intro conjI allI) simp_all
qed

section \<open>Creating a desktop entry (C2, C4, C6, C8)\<close>

lemma last_filename: "last (filename name t) = CHR ''p''"
  by (simp add: filename_def)

lemma filename_nonempty: "filename name t \<noteq> []"
  by (simp add: filename_def)

lemma last_desktop_file_path: "last (desktop_file_path lib name t) = CHR ''p''"
  by (simp add: desktop_file_path_def os_path_join_def last_filename filename_nonempty)

lemma desktop_file_path_not_state: "desktop_file_path lib name t \<noteq> STATE_FILE"
proof
  assume "desktop_file_path lib name t = STATE_FILE"
  then have "last (desktop_file_path lib name t) = last STATE_FILE" by simp
  then show False by (simp add: last_desktop_file_path STATE_FILE_def)
qed

lemma desktop_content_document:
  "desktop_content name bundle icon cls = descriptor_document name bundle icon cls"
  by (simp add: desktop_content_def descriptor_document_def field_def)

lemma write_descriptor_ok:
  assumes "write_result w p = Written" "\<not> chmod_denied w p"
  shows "write_descriptor p c w =
           (None, (emit (OpenWrite p) w)\<lparr>files := (files w)(p \<mapsto> c), perms := (perms w)(p \<mapsto> 493)\<rparr>)"
  using assms by (simp add: write_descriptor_def write_text_def os_chmod_def emit_def Let_def)

lemma files_emit: "files (emit e w) = files w"
  by (simp add: emit_def)

lemma write_descriptor_fails:
  assumes "write_result w p \<noteq> Written \<or> chmod_denied w p"
  shows "\<exists>w1. write_descriptor p c w = (Some OSError, w1) \<and> trace w1 = trace w @ [OpenWrite p]
           \<and> (\<forall>q. q \<noteq> p \<longrightarrow> files w1 q = files w q)"
  using assms
  by (auto simp: write_descriptor_def write_text_def os_chmod_def emit_def Let_def
           split: write_outcome.splits)

lemma str_int_foo: "str_int 1700000000 = ''1700000000''"
  by (simp add: str_int_def str_nat.simps digit_def)

lemma foo_path:
  "desktop_file_path py ''Foo App'' 1700000000 =
     ''/home/user/.local/share/applications/Foo_App_1700000000.desktop''"
  by (simp add: desktop_file_path_def py_def filename_def os_path_join_def replace_spaces_def str_int_foo)

lemma sample_path:
  "desktop_file_path py ''Sample'' 1700000000 =
     ''/home/user/.local/share/applications/Sample_1700000000.desktop''"
  by (simp add: desktop_file_path_def py_def filename_def os_path_join_def replace_spaces_def
        str_int_foo)

text \<open>
  C2. When a bundle was chosen and the name is not empty, and the descriptor file can be
  written and made executable, the file at the descriptor path holds exactly the group
  header and the fields Version, Type=Application, Name, Exec (the bundle path between
  double quotes), Icon (the icon path as given, empty or not), StartupWMClass (the class
  id supplied, or the name when none or an empty one was supplied), Terminal=false and
  Categories=Utility, in this order, one per line, every value written as it came in.
\<close>

theorem create_renders_descriptor:
  assumes "appimage_path inp \<noteq> []" and "app_name inp = Some name" and "name \<noteq> []"
    and "path = desktop_file_path lib name (timestamp inp)"
    and "write_result w path = Written" and "\<not> chmod_denied w path"
  shows "files (snd (snd (create_desktop_entry lib inp a w))) path =
           Some (descriptor_document name (appimage_path inp) (icon_path inp)
                   (resolved_class_id (wm_class inp) name))"
proof -
  let ?cls = "case wm_class inp of None \<Rightarrow> name | Some c \<Rightarrow> if c = [] then name else c"
  let ?content = "desktop_content name (appimage_path inp) (icon_path inp) ?cls"
  let ?w1 = "(emit (OpenWrite path) w)\<lparr>files := (files w)(path \<mapsto> ?content),
                                         perms := (perms w)(path \<mapsto> 493)\<rparr>"
  have cls: "?cls = resolved_class_id (wm_class inp) name"
    by (auto simp: resolved_class_id_def split: option.splits)
  have wd: "write_descriptor path ?content w = (None, ?w1)"
    using assms(5,6) by (rule write_descriptor_ok)
  have ns: "path \<noteq> STATE_FILE"
    using assms(4) by (simp add: desktop_file_path_not_state)
  have f1: "files ?w1 path = Some ?content" by simp
  have "files (snd (snd (create_desktop_entry lib inp a w))) path = files ?w1 path"
    using assms(1,2,3) wd ns
    by (auto simp: create_desktop_entry_def Let_def assms(4)[symmetric] files_emit
             dest: add_entry_files_other split: sum.splits prod.splits option.splits)
  then show ?thesis
    using f1 cls by (simp add: desktop_content_document)
qed

text \<open>The specification's example: \<open>/path/Foo.AppImage\<close> named \<open>Foo App\<close>, no class id, no icon.\<close>

theorem create_renders_descriptor_witness:
  "appimage_path foo_input \<noteq> [] \<and> app_name foo_input = Some ''Foo App''
   \<and> write_result world0 ''/home/user/.local/share/applications/Foo_App_1700000000.desktop'' = Written
   \<and> \<not> chmod_denied world0 ''/home/user/.local/share/applications/Foo_App_1700000000.desktop''
   \<and> files (snd (snd (create_desktop_entry py foo_input empty_app world0)))
        ''/home/user/.local/share/applications/Foo_App_1700000000.desktop'' =
      Some (descriptor_document ''Foo App'' ''/path/Foo.AppImage'' [] ''Foo App'')"
  using create_renders_descriptor[of foo_input "''Foo App''"
      "''/home/user/.local/share/applications/Foo_App_1700000000.desktop''" py world0 empty_app]
  by (simp add: foo_input_def world0_def foo_path resolved_class_id_def)

text \<open>
  C4. When a bundle was chosen and the name is not empty, but writing the descriptor
  file fails (at \<open>open\<close> or later) or \<open>chmod\<close> is refused, the method returns after
  showing the error dialog with the exception; the window and its registry are what
  they were, and so is the backing file.
\<close>

theorem create_write_failure_appends_nothing:
  assumes "appimage_path inp \<noteq> []" and "app_name inp = Some name" and "name \<noteq> []"
    and "path = desktop_file_path lib name (timestamp inp)"
    and "write_result w path \<noteq> Written \<or> chmod_denied w path"
  shows "\<exists>w'. create_desktop_entry lib inp a w = (None, a, w')
           \<and> trace w' = trace w @ [OpenWrite path,
                                    ShowError ''Error'' ''Failed to create desktop entry: '' (Some OSError)]
           \<and> files w' STATE_FILE = files w STATE_FILE"
proof -
  let ?cls = "case wm_class inp of None \<Rightarrow> name | Some c \<Rightarrow> if c = [] then name else c"
  let ?content = "desktop_content name (appimage_path inp) (icon_path inp) ?cls"
  from write_descriptor_fails[OF assms(5), of ?content] obtain w1 where
    wd: "write_descriptor path ?content w = (Some OSError, w1)"
    and tr: "trace w1 = trace w @ [OpenWrite path]"
    and fs: "\<forall>q. q \<noteq> path \<longrightarrow> files w1 q = files w q"
    by blast
  have ns: "STATE_FILE \<noteq> path"
    using assms(4) desktop_file_path_not_state[of lib name "timestamp inp"] by auto
  let ?w' = "emit (ShowError ''Error'' ''Failed to create desktop entry: '' (Some OSError)) w1"
  have "create_desktop_entry lib inp a w = (None, a, ?w')"
    using assms(1,2,3) wd by (simp add: create_desktop_entry_def Let_def assms(4)[symmetric])
  moreover have "trace ?w' = trace w @ [OpenWrite path,
      ShowError ''Error'' ''Failed to create desktop entry: '' (Some OSError)]"
    using tr by (simp add: emit_def)
  moreover have "files ?w' STATE_FILE = files w STATE_FILE"
    using fs ns by (simp add: emit_def)
  ultimately show ?thesis by blast
qed

text \<open>A write that fails after five characters, and a \<open>chmod\<close> that is refused.\<close>

theorem create_write_failure_witness:
  "appimage_path foo_input \<noteq> [] \<and> app_name foo_input = Some ''Foo App''
   \<and> write_result (fail_write ''/home/user/.local/share/applications/Foo_App_1700000000.desktop''
                      (WriteFailed 5) world0)
        ''/home/user/.local/share/applications/Foo_App_1700000000.desktop'' \<noteq> Written
   \<and> chmod_denied (deny_chmod ''/home/user/.local/share/applications/Foo_App_1700000000.desktop'' world0)
        ''/home/user/.local/share/applications/Foo_App_1700000000.desktop''
   \<and> (\<exists>w'. create_desktop_entry py foo_input empty_app
               (fail_write ''/home/user/.local/share/applications/Foo_App_1700000000.desktop''
                  (WriteFailed 5) world0) = (None, empty_app, w')
          \<and> trace w' = [OpenWrite ''/home/user/.local/share/applications/Foo_App_1700000000.desktop'',
                         ShowError ''Error'' ''Failed to create desktop entry: '' (Some OSError)]
          \<and> files w' STATE_FILE = None)
   \<and> (\<exists>w'. create_desktop_entry py foo_input empty_app
               (deny_chmod ''/home/user/.local/share/applications/Foo_App_1700000000.desktop'' world0)
             = (None, empty_app, w')
          \<and> trace w' = [OpenWrite ''/home/user/.local/share/applications/Foo_App_1700000000.desktop'',
                         ShowError ''Error'' ''Failed to create desktop entry: '' (Some OSError)]
          \<and> files w' STATE_FILE = None)"
  using create_write_failure_appends_nothing[of foo_input "''Foo App''"
      "''/home/user/.local/share/applications/Foo_App_1700000000.desktop''" py
      "fail_write ''/home/user/.local/share/applications/Foo_App_1700000000.desktop'' (WriteFailed 5) world0"
      empty_app]
    create_write_failure_appends_nothing[of foo_input "''Foo App''"
      "''/home/user/.local/share/applications/Foo_App_1700000000.desktop''" py
      "deny_chmod ''/home/user/.local/share/applications/Foo_App_1700000000.desktop'' world0"
      empty_app]
  by (simp add: foo_input_def world0_def foo_path fail_write_def deny_chmod_def STATE_FILE_def)

text \<open>
  C8. When the name dialog is cancelled or answered with the empty string, the method
  returns with the window and its registry unchanged and no file created, changed or
  made executable; the error dialog is shown at once whenever a bundle had been chosen
  (the name is asked only then).
\<close>

theorem create_empty_name_no_effects:
  assumes "app_name inp = None \<or> app_name inp = Some []"
  shows "\<exists>w'. create_desktop_entry lib inp a w = (None, a, w')
           \<and> files w' = files w \<and> perms w' = perms w
           \<and> (appimage_path inp \<noteq> [] \<longrightarrow>
                trace w' = trace w @ [ShowError ''Error'' ''Application name cannot be empty.'' None])"
  using assms by (auto simp: create_desktop_entry_def emit_def)

text \<open>An empty answer and a cancelled dialog, after a bundle was chosen.\<close>

theorem create_empty_name_witness:
  "app_name (foo_input\<lparr>app_name := Some []\<rparr>) = Some []
   \<and> appimage_path (foo_input\<lparr>app_name := Some []\<rparr>) \<noteq> []
   \<and> (\<exists>w'. create_desktop_entry py (foo_input\<lparr>app_name := Some []\<rparr>) empty_app world0
               = (None, empty_app, w')
          \<and> files w' = files world0 \<and> perms w' = perms world0
          \<and> trace w' = [ShowError ''Error'' ''Application name cannot be empty.'' None])
   \<and> app_name (foo_input\<lparr>app_name := None\<rparr>) = None
   \<and> (\<exists>w'. create_desktop_entry py (foo_input\<lparr>app_name := None\<rparr>) empty_app world0
               = (None, empty_app, w')
          \<and> files w' = files world0 \<and> perms w' = perms world0
          \<and> trace w' = [ShowError ''Error'' ''Application name cannot be empty.'' None])"
  using create_empty_name_no_effects[of "foo_input\<lparr>app_name := Some []\<rparr>" py empty_app world0]
    create_empty_name_no_effects[of "foo_input\<lparr>app_name := None\<rparr>" py empty_app world0]
  by (simp add: foo_input_def world0_def)

text \<open>
  The decimal text of the clock determines the clock, so registrations of one name made
  in different seconds get different file names and paths.
\<close>

lemma str_nat_inj: "str_nat a = str_nat b \<Longrightarrow> a = b"
  by (metis nat_of_digits_str_nat)

lemma digit_not_minus: "d < 10 \<Longrightarrow> digit d \<noteq> CHR ''-''"
proof -
  assume "d < 10"
  then have "d \<in> {0,1,2,3,4,5,6,7,8,9}" by auto
  then show ?thesis by (auto simp: digit_def)
qed

lemma hd_str_nat: "hd (str_nat n) \<noteq> CHR ''-''"
proof (induction n rule: str_nat.induct)
  case (1 n)
  show ?case
  proof (cases "n < 10")
    case True
    then show ?thesis by (subst str_nat.simps) (simp add: digit_not_minus)
  next
    case False
    with 1 have "hd (str_nat (n div 10)) \<noteq> CHR ''-''" by simp
    with False show ?thesis
      by (subst str_nat.simps) (simp add: str_nat_nonempty)
  qed
qed

lemma str_int_inj: "str_int a = str_int b \<Longrightarrow> a = b"
proof -
  assume eq: "str_int a = str_int b"
  have neg: "hd (str_int i) = CHR ''-'' \<longleftrightarrow> i < 0" for i
    using hd_str_nat[of "nat i"] by (simp add: str_int_def)
  from eq have s: "a < 0 \<longleftrightarrow> b < 0" using neg by metis
  show ?thesis
  proof (cases "a < 0")
    case True
    with s eq have "str_nat (nat (- a)) = str_nat (nat (- b))" by (simp add: str_int_def)
    then have "nat (- a) = nat (- b)" by (rule str_nat_inj)
    with True s show ?thesis by simp
  next
    case False
    with s eq have "str_nat (nat a) = str_nat (nat b)" by (simp add: str_int_def)
    then have "nat a = nat b" by (rule str_nat_inj)
    with False s show ?thesis by simp
  qed
qed

lemma filename_distinct_seconds: "t1 \<noteq> t2 \<Longrightarrow> filename name t1 \<noteq> filename name t2"
  by (auto simp: filename_def dest: str_int_inj)

lemma hd_filename:
  "hd (filename name t) = (if name = [] then CHR ''_'' else hd (replace_spaces name))"
  by (cases name) (simp_all add: filename_def replace_spaces_def)

lemma desktop_file_path_distinct_seconds:
  assumes "t1 \<noteq> t2"
  shows "desktop_file_path lib name t1 \<noteq> desktop_file_path lib name t2"
proof -
  have ne: "filename name t1 \<noteq> filename name t2"
    using assms by (rule filename_distinct_seconds)
  have hd: "hd (filename name t1) = hd (filename name t2)"
    by (simp add: hd_filename)
  have nonempty: "filename name t \<noteq> []" for t
    by (simp add: filename_def)
  show ?thesis
    using ne hd nonempty[of t1] nonempty[of t2]
    by (simp add: desktop_file_path_def os_path_join_def)
qed

text \<open>
  C6. The file name is the name with its spaces replaced by underscores, an underscore,
  the clock in whole seconds and \<open>.desktop\<close>. Two registrations of the name Sample made
  while the clock reads the same second get the same file name: the second write
  replaces the first descriptor (here the one of another bundle), and the registry
  holds two records that point to one file.
\<close>

theorem create_twice_same_second:
  "case create_desktop_entry py sample_input empty_app world0 of
     (r1, a1, w1) \<Rightarrow>
       (case create_desktop_entry py (sample_input\<lparr>appimage_path := ''/srv/Sample.AppImage''\<rparr>) a1 w1 of
          (r2, a2, w2) \<Rightarrow>
            r1 = None \<and> r2 = None
            \<and> filename ''Sample'' 1700000000 = ''Sample_1700000000.desktop''
            \<and> state (manager a2) =
                JArr [registration ''Sample'' ''/opt/Sample.AppImage''
                        ''/home/user/.local/share/applications/Sample_1700000000.desktop'',
                      registration ''Sample'' ''/srv/Sample.AppImage''
                        ''/home/user/.local/share/applications/Sample_1700000000.desktop'']
            \<and> files w1 ''/home/user/.local/share/applications/Sample_1700000000.desktop'' =
                Some (descriptor_document ''Sample'' ''/opt/Sample.AppImage'' ''/opt/sample.png'' ''sample'')
            \<and> files w2 ''/home/user/.local/share/applications/Sample_1700000000.desktop'' =
                Some (descriptor_document ''Sample'' ''/srv/Sample.AppImage'' ''/opt/sample.png'' ''sample''))"
  by (simp add: create_desktop_entry_def sample_input_def empty_app_def sample_path Let_def
        write_descriptor_def write_text_def os_chmod_def emit_def world0_def add_entry_def
        save_state_def refresh_list_def registration_def filename_def replace_spaces_def
        str_int_foo desktop_content_document STATE_FILE_def)

section \<open>Deleting a desktop entry (C5, C10)\<close>

lemma insert_rows_dicts:
  "list_all is_dict es \<Longrightarrow>
   fst (insert_rows es a) = None \<and> manager (snd (insert_rows es a)) = manager a"
proof (induction es arbitrary: a)
  case Nil
  then show ?case by simp
next
  case (Cons e es)
  then obtain kvs where e: "e = JObj kvs" by (cases e) auto
  from Cons show ?case by (simp add: e)
qed

lemma refresh_list_dicts:
  assumes "state (manager a) = JArr xs" "list_all is_dict xs"
  shows "\<exists>a'. refresh_list a = (None, a') \<and> manager a' = manager a"
proof -
  have "fst (insert_rows xs (a\<lparr>tree := []\<rparr>)) = None
        \<and> manager (snd (insert_rows xs (a\<lparr>tree := []\<rparr>))) = manager (a\<lparr>tree := []\<rparr>)"
    using assms(2) by (rule insert_rows_dicts)
  then show ?thesis
    using assms(1) by (cases "insert_rows xs (a\<lparr>tree := []\<rparr>)") (simp add: refresh_list_def Let_def)
qed

lemma list_all_remove_at: "list_all P xs \<Longrightarrow> list_all P (take n xs @ drop (Suc n) xs)"
  by (auto simp: list_all_iff dest: in_set_takeD in_set_dropD)

lemma py_get_dict: "is_dict e \<Longrightarrow> \<exists>v. py_get e k d = Inr v"
  by (cases e) auto

lemma sample_b_desktop_file:
  "py_get ([sample_a, sample_b] ! 1) ''desktop_file'' JNull = Inr (JStr ''/apps/Other_200.desktop'')"
  by (simp add: sample_b_def registration_def)

lemma samples_are_dicts: "list_all is_dict [sample_a, sample_b]"
  by (simp add: sample_a_def sample_b_def registration_def)

text \<open>
  C5. Deleting, once confirmed, the record at a valid position \<open>i\<close> of a registry of
  dicts, whose descriptor path is \<open>p\<close>: when no file is at \<open>p\<close> the method returns, the
  record is gone from the registry, no error dialog is among the events and the last
  event reports the deletion; when a file is at \<open>p\<close> and removing it is refused, the
  method returns after showing the error dialog, and window, registry and files are
  what they were.
\<close>

theorem delete_entry_descriptor_cases:
  assumes "state (manager a) = JArr xs" and "0 \<le> i" and "i < int (length xs)"
    and "list_all is_dict xs"
    and "py_get (xs ! nat i) ''desktop_file'' JNull = Inr (JStr p)"
  shows "(files w p = None \<longrightarrow>
           (\<exists>a' w' es. delete_entry lib (i # sel) True a w = (None, a', w')
              \<and> state (manager a') = JArr (take (nat i) xs @ drop (Suc (nat i)) xs)
              \<and> trace w' = trace w @ es
              \<and> (\<forall>t s e. ShowError t s e \<notin> set es)
              \<and> last es = ShowInfo ''Deleted'' ''Desktop entry deleted successfully.''))
       \<and> (files w p \<noteq> None \<and> remove_denied w p \<longrightarrow>
           (\<exists>w'. delete_entry lib (i # sel) True a w = (None, a, w')
              \<and> files w' = files w
              \<and> last (trace w') =
                  ShowError ''Error'' ''Failed to delete desktop entry file: '' (Some OSError)))"
proof -
  let ?e = "xs ! nat i"
  have gi: "py_getitem (state (manager a)) i = Inr ?e"
    using assms(1,2,3) by (simp add: index_of_def)
  have "is_dict ?e"
    using assms(2,3,4) by (simp add: list_all_length)
  then obtain name where nm: "py_get ?e ''app_name'' (JStr ''Unnamed'') = Inr name"
    using py_get_dict by blast
  let ?w1 = "emit (AskYesNo ''Confirm Delete'' name) w"
  have absent: ?thesis if ab: "files w p = None"
  proof -
    let ?zs = "take (nat i) xs @ drop (Suc (nat i)) xs"
    let ?m3 = "(manager a)\<lparr>state := JArr ?zs\<rparr>"
    let ?w3 = "save_state lib ?w1 ?m3"
    have rd: "remove_descriptor (JStr p) ?w1 = (None, ?w1)"
      using ab by (simp add: remove_descriptor_def emit_def)
    have re: "remove_entry lib i ?w1 (manager a) = Inr (Some ?e, ?w3, ?m3)"
      using assms(1,2,3) by (simp add: remove_entry_def Let_def)
    have "state (manager (a\<lparr>manager := ?m3\<rparr>)) = JArr ?zs" by simp
    moreover have "list_all is_dict ?zs" using assms(4) by (rule list_all_remove_at)
    ultimately obtain a4 where rl: "refresh_list (a\<lparr>manager := ?m3\<rparr>) = (None, a4)"
      and ma: "manager a4 = manager (a\<lparr>manager := ?m3\<rparr>)"
      using refresh_list_dicts by blast
    let ?w' = "emit (ShowInfo ''Deleted'' ''Desktop entry deleted successfully.'') ?w3"
    have de: "delete_entry lib (i # sel) True a w = (None, a4, ?w')"
      using gi nm assms(5) rd re rl by (simp add: delete_entry_def Let_def)
    obtain es where es: "trace ?w3 = trace ?w1 @ es" "\<forall>t s e. ShowError t s e \<notin> set es"
      using trace_save_state by blast
    let ?all = "AskYesNo ''Confirm Delete'' name # es
                  @ [ShowInfo ''Deleted'' ''Desktop entry deleted successfully.'']"
    have "trace ?w' = trace w @ ?all" using es(1) by (simp add: emit_def)
    moreover have "\<forall>t s e. ShowError t s e \<notin> set ?all" using es(2) by simp
    moreover have "last ?all = ShowInfo ''Deleted'' ''Desktop entry deleted successfully.''" by simp
    moreover have "state (manager a4) = JArr ?zs" using ma by simp
    ultimately show ?thesis using de ab by blast
  qed
  have denied: ?thesis if dn: "files w p \<noteq> None \<and> remove_denied w p"
  proof -
    have rd: "remove_descriptor (JStr p) ?w1 = (Some OSError, ?w1)"
      using dn by (simp add: remove_descriptor_def os_remove_def emit_def)
    let ?w' = "emit (ShowError ''Error'' ''Failed to delete desktop entry file: '' (Some OSError)) ?w1"
    have "delete_entry lib (i # sel) True a w = (None, a, ?w')"
      using gi nm assms(5) rd by (simp add: delete_entry_def Let_def)
    moreover have "files ?w' = files w" by (simp add: emit_def)
    moreover have "last (trace ?w') =
        ShowError ''Error'' ''Failed to delete desktop entry file: '' (Some OSError)"
      by (simp add: emit_def)
    ultimately show ?thesis using dn by blast
  qed
  show ?thesis using absent denied by blast
qed

text \<open>
  The second sample record: deleted with its descriptor file already gone, and kept
  when the file is there and may not be removed.
\<close>

theorem delete_entry_descriptor_cases_witness:
  "state (manager two_app) = JArr [sample_a, sample_b]
   \<and> list_all is_dict [sample_a, sample_b]
   \<and> py_get ([sample_a, sample_b] ! nat 1) ''desktop_file'' JNull = Inr (JStr ''/apps/Other_200.desktop'')
   \<and> files world0 ''/apps/Other_200.desktop'' = None
   \<and> (\<exists>a' w' es. delete_entry py [1] True two_app world0 = (None, a', w')
          \<and> state (manager a') = JArr [sample_a]
          \<and> trace w' = es
          \<and> (\<forall>t s e. ShowError t s e \<notin> set es)
          \<and> last es = ShowInfo ''Deleted'' ''Desktop entry deleted successfully.'')
   \<and> files (deny_remove ''/apps/Other_200.desktop'' (with_file ''/apps/Other_200.desktop'' ''x'' world0))
        ''/apps/Other_200.desktop'' \<noteq> None
   \<and> remove_denied (deny_remove ''/apps/Other_200.desktop'' (with_file ''/apps/Other_200.desktop'' ''x'' world0))
        ''/apps/Other_200.desktop''
   \<and> (\<exists>w'. delete_entry py [1] True two_app
               (deny_remove ''/apps/Other_200.desktop'' (with_file ''/apps/Other_200.desktop'' ''x'' world0))
             = (None, two_app, w')
          \<and> files w' ''/apps/Other_200.desktop'' = Some ''x''
          \<and> last (trace w') =
               ShowError ''Error'' ''Failed to delete desktop entry file: '' (Some OSError))"
proof -
  let ?p = "''/apps/Other_200.desktop''"
  let ?wd = "deny_remove ?p (with_file ?p ''x'' world0)"
  have h1: "state (manager two_app) = JArr [sample_a, sample_b]" by (simp add: two_app_def)
  have h4: "list_all is_dict [sample_a, sample_b]" by (rule samples_are_dicts)
  have h5: "py_get ([sample_a, sample_b] ! nat 1) ''desktop_file'' JNull = Inr (JStr ?p)"
    using sample_b_desktop_file by simp
  have f0: "files world0 ?p = None" by (simp add: world0_def)
  have fd: "files ?wd ?p = Some ''x''" by (simp add: deny_remove_def with_file_def)
  have rd: "remove_denied ?wd ?p" by (simp add: deny_remove_def)
  have t0: "trace world0 = []" by (simp add: world0_def)
  from delete_entry_descriptor_cases[where lib=py and sel="[]" and w=world0, OF h1 _ _ h4 h5] f0 t0
  have a: "\<exists>a' w' es. delete_entry py [1] True two_app world0 = (None, a', w')
          \<and> state (manager a') = JArr [sample_a]
          \<and> trace w' = es
          \<and> (\<forall>t s e. ShowError t s e \<notin> set es)
          \<and> last es = ShowInfo ''Deleted'' ''Desktop entry deleted successfully.''"
    by simp
  from delete_entry_descriptor_cases[where lib=py and sel="[]" and w="?wd", OF h1 _ _ h4 h5] fd rd
  have b: "\<exists>w'. delete_entry py [1] True two_app ?wd = (None, two_app, w')
          \<and> files w' ?p = Some ''x''
          \<and> last (trace w') =
               ShowError ''Error'' ''Failed to delete desktop entry file: '' (Some OSError)"
    by auto
  show ?thesis using h1 h4 h5 f0 fd rd a b by simp
qed

text \<open>
  C10. \<open>delete_entry\<close> reads \<open>self.manager.state[index]\<close> before \<open>remove_entry\<close> checks
  the bounds. On a registry holding the sequence \<open>xs\<close>: for a position at or beyond the
  length the lookup raises IndexError, which leaves the method, and nothing is shown;
  for a position in \<open>[-length, 0)\<close> the lookup gives the record counted from the end,
  \<open>remove_entry\<close> at that position returns \<open>None\<close> without changing anything, and so a
  confirmed deletion removes that record's descriptor file, leaves the registry as it
  was and reports success.
\<close>

theorem delete_entry_unchecked_lookup:
  assumes "state (manager a) = JArr xs"
  shows "(int (length xs) \<le> i \<longrightarrow>
            delete_entry lib (i # sel) confirm a w = (Some IndexError, a, w))
       \<and> (- int (length xs) \<le> i \<and> i < 0 \<longrightarrow>
            py_getitem (state (manager a)) i = Inr (xs ! nat (int (length xs) + i))
            \<and> remove_entry lib i w (manager a) = Inr (None, w, manager a)
            \<and> (list_all is_dict xs
                 \<and> py_get (xs ! nat (int (length xs) + i)) ''desktop_file'' JNull = Inr (JStr p)
                 \<and> files w p \<noteq> None \<and> \<not> remove_denied w p \<longrightarrow>
                 (\<exists>a' w'. delete_entry lib (i # sel) True a w = (None, a', w')
                    \<and> files w' p = None
                    \<and> manager a' = manager a
                    \<and> last (trace w') = ShowInfo ''Deleted'' ''Desktop entry deleted successfully.'')))"
proof -
  have big: "delete_entry lib (i # sel) confirm a w = (Some IndexError, a, w)"
    if "int (length xs) \<le> i"
    using that assms by (simp add: delete_entry_def index_of_def)
  have neg: "py_getitem (state (manager a)) i = Inr (xs ! nat (int (length xs) + i))
             \<and> remove_entry lib i w (manager a) = Inr (None, w, manager a)"
    if "- int (length xs) \<le> i \<and> i < 0"
    using that assms by (simp add: index_of_def remove_entry_def)
  have del: "\<exists>a' w'. delete_entry lib (i # sel) True a w = (None, a', w')
                    \<and> files w' p = None
                    \<and> manager a' = manager a
                    \<and> last (trace w') = ShowInfo ''Deleted'' ''Desktop entry deleted successfully.''"
    if r: "- int (length xs) \<le> i \<and> i < 0" and d: "list_all is_dict xs"
      and g: "py_get (xs ! nat (int (length xs) + i)) ''desktop_file'' JNull = Inr (JStr p)"
      and f: "files w p \<noteq> None \<and> \<not> remove_denied w p"
  proof -
    let ?e = "xs ! nat (int (length xs) + i)"
    have gi: "py_getitem (state (manager a)) i = Inr ?e" using neg r by blast
    have "nat (int (length xs) + i) < length xs" using r by auto
    then have "is_dict ?e" using d by (simp add: list_all_length)
    then obtain name where nm: "py_get ?e ''app_name'' (JStr ''Unnamed'') = Inr name"
      using py_get_dict by blast
    let ?w1 = "emit (AskYesNo ''Confirm Delete'' name) w"
    let ?w2 = "?w1\<lparr>files := (files ?w1)(p := None), perms := (perms ?w1)(p := None)\<rparr>"
    have rd: "remove_descriptor (JStr p) ?w1 = (None, ?w2)"
      using f by (simp add: remove_descriptor_def os_remove_def emit_def)
    have re: "remove_entry lib i ?w2 (manager a) = Inr (None, ?w2, manager a)"
      using r by (simp add: remove_entry_def)
    have "a\<lparr>manager := manager a\<rparr> = a" by simp
    then obtain a4 where rl: "refresh_list (a\<lparr>manager := manager a\<rparr>) = (None, a4)"
      and ma: "manager a4 = manager a"
      using refresh_list_dicts[OF assms d] by auto
    let ?w' = "emit (ShowInfo ''Deleted'' ''Desktop entry deleted successfully.'') ?w2"
    have "delete_entry lib (i # sel) True a w = (None, a4, ?w')"
      using gi nm g rd re rl by (simp add: delete_entry_def Let_def)
    moreover have "files ?w' p = None" by (simp add: emit_def)
    moreover have "last (trace ?w') = ShowInfo ''Deleted'' ''Desktop entry deleted successfully.''"
      by (simp add: emit_def)
    ultimately show ?thesis using ma by blast
  qed
  show ?thesis using big neg del by blast
qed

text \<open>Position 2 of two records raises; position -1 deletes the last record's file only.\<close>

theorem delete_entry_unchecked_lookup_witness:
  "state (manager two_app) = JArr [sample_a, sample_b]
   \<and> delete_entry py [2] True two_app (with_file ''/apps/Other_200.desktop'' ''x'' world0)
       = (Some IndexError, two_app, with_file ''/apps/Other_200.desktop'' ''x'' world0)
   \<and> py_getitem (state (manager two_app)) (- 1) = Inr sample_b
   \<and> remove_entry py (- 1) (with_file ''/apps/Other_200.desktop'' ''x'' world0) (manager two_app)
       = Inr (None, with_file ''/apps/Other_200.desktop'' ''x'' world0, manager two_app)
   \<and> list_all is_dict [sample_a, sample_b]
   \<and> py_get sample_b ''desktop_file'' JNull = Inr (JStr ''/apps/Other_200.desktop'')
   \<and> files (with_file ''/apps/Other_200.desktop'' ''x'' world0) ''/apps/Other_200.desktop'' \<noteq> None
   \<and> \<not> remove_denied (with_file ''/apps/Other_200.desktop'' ''x'' world0) ''/apps/Other_200.desktop''
   \<and> (\<exists>a' w'. delete_entry py [- 1] True two_app (with_file ''/apps/Other_200.desktop'' ''x'' world0)
                  = (None, a', w')
          \<and> files w' ''/apps/Other_200.desktop'' = None
          \<and> manager a' = manager two_app
          \<and> last (trace w') = ShowInfo ''Deleted'' ''Desktop entry deleted successfully.'')"
proof -
  let ?p = "''/apps/Other_200.desktop''"
  let ?w = "with_file ?p ''x'' world0"
  have h1: "state (manager two_app) = JArr [sample_a, sample_b]" by (simp add: two_app_def)
  have d: "list_all is_dict [sample_a, sample_b]" by (rule samples_are_dicts)
  have g: "py_get sample_b ''desktop_file'' JNull = Inr (JStr ?p)"
    by (simp add: sample_b_def registration_def)
  have f: "files ?w ?p \<noteq> None" by (simp add: with_file_def)
  have r: "\<not> remove_denied ?w ?p" by (simp add: with_file_def world0_def)
  show ?thesis
    using delete_entry_unchecked_lookup[where i=2 and lib=py and sel="[]" and confirm=True and w="?w" and p="?p", OF h1]
      delete_entry_unchecked_lookup[where i="- 1" and lib=py and sel="[]" and confirm=True and w="?w" and p="?p", OF h1]
      h1 d g f r
    by simp
qed

end
